theory Spec2Isabelle
  imports Main
begin

section \<open>Strings as the template engine uses them\<close>

text \<open>
  The engine is Python 2 (\<^verbatim>\<open>print\<close> is a statement in \<^verbatim>\<open>_do_dots\<close>), so a template is
  a byte string: a \<^typ>\<open>string\<close> here. The helpers below are the string methods that
  \<^verbatim>\<open>Template.__init__\<close> and \<^verbatim>\<open>Template._expr_code\<close> call.
\<close>

definition startswith :: "string \<Rightarrow> string \<Rightarrow> bool" where
  "startswith s p = (take (length p) s = p)"


text \<open>The whitespace of \<^verbatim>\<open>str.strip()\<close> and \<^verbatim>\<open>str.split()\<close>: space, tab, newline,
  vertical tab, form feed, carriage return.\<close>

definition is_space :: "char \<Rightarrow> bool" where
  "is_space c = (c = CHR '' '' \<or> c = CHR 0x09 \<or> c = CHR 0x0A \<or> c = CHR 0x0B
                 \<or> c = CHR 0x0C \<or> c = CHR 0x0D)"

definition strip :: "string \<Rightarrow> string" where
  "strip s = rev (dropWhile is_space (rev (dropWhile is_space s)))"

text \<open>\<^verbatim>\<open>s.split()\<close>: the maximal runs of non-whitespace, in order. The first argument is
  the word being read.\<close>

fun split_words :: "string \<Rightarrow> string \<Rightarrow> string list" where
  "split_words cur [] = (if cur = [] then [] else [cur])"
| "split_words cur (c # cs) =
     (if is_space c then (if cur = [] then split_words [] cs else cur # split_words [] cs)
      else split_words (cur @ [c]) cs)"

definition split_ws :: "string \<Rightarrow> string list" where
  "split_ws s = split_words [] s"

text \<open>\<^verbatim>\<open>s.split(sep)\<close> for a one-character separator: never empty, \<^verbatim>\<open>"".split("|")\<close>
  is \<^verbatim>\<open>['']\<close>.\<close>

fun split_on :: "char \<Rightarrow> string \<Rightarrow> string list" where
  "split_on sep [] = [[]]"
| "split_on sep (c # cs) =
     (if c = sep then [] # split_on sep cs
      else (case split_on sep cs of [] \<Rightarrow> [[c]] | w # ws \<Rightarrow> (c # w) # ws))"

text \<open>The slice \<^verbatim>\<open>token[2:-2]\<close>; it is empty when the token has fewer than five
  characters.\<close>

definition inner_text :: "string \<Rightarrow> string" where
  "inner_text token = drop 2 (take (length token - 2) token)"

section \<open>The tokenizer\<close>

text \<open>
  \<^verbatim>\<open>re.split(r"(?s)({{.*?}}|{%.*?%}|{#.*?#})", template)\<close>. The pattern is one capturing
  group of three alternatives, each an opener, a lazy \<^verbatim>\<open>.*?\<close> that also crosses newlines
  (\<^verbatim>\<open>(?s)\<close>) and a closer. \<open>find_sub\<close> is the lazy search for the closer: the shortest
  text before its first occurrence.
\<close>

fun find_sub :: "string \<Rightarrow> string \<Rightarrow> (string \<times> string) option" where
  "find_sub pat [] = (if pat = [] then Some ([], []) else None)"
| "find_sub pat (c # cs) =
     (if startswith (c # cs) pat then Some ([], drop (length pat) (c # cs))
      else (case find_sub pat cs of None \<Rightarrow> None | Some (i, r) \<Rightarrow> Some (c # i, r)))"

definition match_alt :: "string \<Rightarrow> string \<Rightarrow> string \<Rightarrow> (string \<times> string) option" where
  "match_alt opener closer s =
     (if startswith s opener then
        (case find_sub closer (drop (length opener) s) of
           None \<Rightarrow> None
         | Some (inner, rest) \<Rightarrow> Some (opener @ inner @ closer, rest))
      else None)"

text \<open>A match of the whole pattern at the start of \<open>s\<close>: the alternatives in the
  pattern's order; the result is the matched text and what follows it.\<close>

definition match_tag :: "string \<Rightarrow> (string \<times> string) option" where
  "match_tag s =
     (case match_alt ''{{'' ''}}'' s of Some r \<Rightarrow> Some r | None \<Rightarrow>
      (case match_alt ''{%'' ''%}'' s of Some r \<Rightarrow> Some r | None \<Rightarrow>
       match_alt ''{#'' ''#}'' s))"

lemma find_sub_concat:
  "find_sub pat s = Some (i, r) \<Longrightarrow> i @ pat @ r = s"
proof (induction s arbitrary: i r)
  case Nil
  then show ?case by (simp split: if_splits)
next
  case (Cons c cs)
  show ?case
  proof (cases "startswith (c # cs) pat")
    case True
    with Cons.prems have "i = []" "r = drop (length pat) (c # cs)" by auto
    moreover from True have "pat @ drop (length pat) (c # cs) = c # cs"
      unfolding startswith_def by (metis append_take_drop_id)
    ultimately show ?thesis by simp
  next
    case False
    with Cons.prems obtain i' where "find_sub pat cs = Some (i', r)" "i = c # i'"
      by (auto split: option.splits)
    with Cons.IH show ?thesis by auto
  qed
qed

lemma match_alt_concat:
  "match_alt opener closer s = Some (t, r) \<Longrightarrow> t @ r = s"
  unfolding match_alt_def startswith_def
  by (auto split: if_splits option.splits dest!: find_sub_concat)
     (metis append_take_drop_id)

lemma match_alt_shape:
  "match_alt opener closer s = Some (t, r) \<Longrightarrow> \<exists>inner. t = opener @ inner @ closer"
  unfolding match_alt_def by (auto split: if_splits option.splits)

lemma match_tag_concat: "match_tag s = Some (t, r) \<Longrightarrow> t @ r = s"
  unfolding match_tag_def by (auto split: option.splits dest: match_alt_concat)

lemma match_tag_len4: "match_tag s = Some (t, r) \<Longrightarrow> 4 \<le> length t"
  unfolding match_tag_def by (auto split: option.splits dest!: match_alt_shape)

lemma match_tag_shorter: "match_tag s = Some (t, r) \<Longrightarrow> length r < length s"
  using match_tag_concat[of s t r] match_tag_len4[of s t r] by auto

text \<open>
  \<^verbatim>\<open>re.split\<close> with a capturing group: the text before the leftmost match, the match,
  then the split of what follows the match; with no match left, the remaining text is
  the last piece. The pieces before and between matches may be empty.
\<close>

function tokenize :: "string \<Rightarrow> string list" where
  "tokenize [] = [[]]"
| "tokenize (c # cs) =
     (case match_tag (c # cs) of
        Some (tag, rest) \<Rightarrow> [] # tag # tokenize rest
      | None \<Rightarrow> (case tokenize cs of
                   [] \<Rightarrow> [[c]]
                 | lit # toks \<Rightarrow> (c # lit) # toks))"
  by pat_completeness auto
termination
  by (relation "measure length") (auto dest: match_tag_shorter)

text \<open>The text \<open>pat\<close> occurs somewhere in \<open>s\<close>.\<close>

definition occurs :: "string \<Rightarrow> string \<Rightarrow> bool" where
  "occurs pat s = (find_sub pat s \<noteq> None)"

text \<open>The branch of \<^verbatim>\<open>Template.__init__\<close> that a token takes: the \<^verbatim>\<open>startswith\<close> tests
  in the order of the \<^verbatim>\<open>if\<close>/\<^verbatim>\<open>elif\<close> chain.\<close>

datatype kind = Comment | Output | Action | Literal

definition classify :: "string \<Rightarrow> kind" where
  "classify token =
     (if startswith token ''{#'' then Comment
      else if startswith token ''{{'' then Output
      else if startswith token ''{%'' then Action
      else Literal)"




section \<open>The generated program\<close>

text \<open>
  \<^verbatim>\<open>Template.__init__\<close> writes the source text of a Python function, line by line, into a
  \<^verbatim>\<open>CodeBuilder\<close> and hands the text to \<^verbatim>\<open>exec\<close>. Every line it writes comes from one
  of a dozen format strings. A line is kept here as the format string that produced it
  together with the pieces that were filled in; \<open>line_text\<close> below gives back the text.
  An expression is what \<^verbatim>\<open>_expr_code\<close> returns:
  \<^verbatim>\<open>"c_%s" % expr\<close>, \<^verbatim>\<open>"c_%s(%s)" % (func, code)\<close> or \<^verbatim>\<open>"do_dots(%s, %s)" % (code, args)\<close>.
\<close>

datatype pyexpr =
    CVar string
  | CCall string pyexpr
  | CDoDots pyexpr "string list"

text \<open>An entry of \<^verbatim>\<open>buffered\<close>: \<^verbatim>\<open>"to_str(%s)" % expr\<close> or \<^verbatim>\<open>repr(token)\<close>.\<close>

datatype pyitem = ToStr pyexpr | StrLit string

datatype pyline =
    DefRender
  | InitResult
  | InitAppend
  | InitExtend
  | InitToStr
  | AppendResult pyitem
  | ExtendResult "pyitem list"
  | IfHead pyexpr
  | ForHead string pyexpr
  | LoadVar string
  | ReturnJoin

text \<open>\<^verbatim>\<open>repr\<close> of a Python 2 \<^verbatim>\<open>str\<close>: single quotes, unless the string has a single quote
  and no double quote; the quote and the backslash escaped, tab, newline and carriage
  return by letter, other bytes outside the printable ASCII range as \<^verbatim>\<open>\xhh\<close>.\<close>

definition hex_digit :: "nat \<Rightarrow> char" where
  "hex_digit n = ''0123456789abcdef'' ! (n mod 16)"

definition escape_char :: "char \<Rightarrow> char \<Rightarrow> string" where
  "escape_char q c =
     (if c = q \<or> c = CHR 0x5C then [CHR 0x5C, c]
      else if c = CHR 0x09 then [CHR 0x5C, CHR ''t'']
      else if c = CHR 0x0A then [CHR 0x5C, CHR ''n'']
      else if c = CHR 0x0D then [CHR 0x5C, CHR ''r'']
      else if (of_char c :: nat) < 32 \<or> 127 \<le> (of_char c :: nat)
        then [CHR 0x5C, CHR ''x'', hex_digit (of_char c div 16), hex_digit (of_char c)]
      else [c])"

definition py_repr :: "string \<Rightarrow> string" where
  "py_repr s =
     (let q = (if CHR 0x27 \<in> set s \<and> CHR 0x22 \<notin> set s then CHR 0x22 else CHR 0x27)
      in q # concat (map (escape_char q) s) @ [q])"

text \<open>\<^verbatim>\<open>sep.join(xs)\<close>.\<close>

fun join :: "string \<Rightarrow> string list \<Rightarrow> string" where
  "join sep [] = []"
| "join sep [x] = x"
| "join sep (x # y # ys) = x @ sep @ join sep (y # ys)"

fun expr_text :: "pyexpr \<Rightarrow> string" where
  "expr_text (CVar name) = ''c_'' @ name"
| "expr_text (CCall func code) = ''c_'' @ func @ ''('' @ expr_text code @ '')''"
| "expr_text (CDoDots code dots) =
     ''do_dots('' @ expr_text code @ '', '' @ join '', '' (map py_repr dots) @ '')''"

fun item_text :: "pyitem \<Rightarrow> string" where
  "item_text (ToStr e) = ''to_str('' @ expr_text e @ '')''"
| "item_text (StrLit token) = py_repr token"

fun line_text :: "pyline \<Rightarrow> string" where
  "line_text DefRender = ''def render_function(context, do_dots):''"
| "line_text InitResult = ''result = []''"
| "line_text InitAppend = ''append_result = result.append''"
| "line_text InitExtend = ''extend_result = result.extend''"
| "line_text InitToStr = ''to_str = str''"
| "line_text (AppendResult b) = ''append_result('' @ item_text b @ '')''"
| "line_text (ExtendResult bs) = ''extend_result(['' @ join '', '' (map item_text bs) @ ''])''"
| "line_text (IfHead e) = ''if '' @ expr_text e @ '':''"
| "line_text (ForHead v e) = ''for c_'' @ v @ '' in '' @ expr_text e @ '':''"
| "line_text (LoadVar v) = ''c_'' @ v @ '' = context['' @ py_repr v @ '']''"
| "line_text ReturnJoin = ''return '' @ [CHR 0x27, CHR 0x27] @ ''.join(result)''"

subsection \<open>CodeBuilder\<close>

text \<open>
  \<^verbatim>\<open>self.code\<close> is a list of strings and sections; \<^verbatim>\<open>add_line\<close> extends it by the
  indentation, the line and a newline, which is one \<open>Ln\<close> here. The only section of a
  template's builder is \<^verbatim>\<open>vars_code\<close>: \<^verbatim>\<open>__init__\<close> keeps a reference to it and fills it
  after the main loop, so the builder holds a placeholder and the section's own builder
  travels beside it.
\<close>

datatype item = Ln int pyline | Section

record codebuilder =
  code :: "item list"
  indent_level :: int

definition INDENT_STEP :: int where
  "INDENT_STEP = 4"

definition new_codebuilder :: "int \<Rightarrow> codebuilder" where
  "new_codebuilder ind = \<lparr>code = [], indent_level = ind\<rparr>"

definition add_line :: "pyline \<Rightarrow> codebuilder \<Rightarrow> codebuilder" where
  "add_line l cb = cb\<lparr>code := code cb @ [Ln (indent_level cb) l]\<rparr>"

definition indent :: "codebuilder \<Rightarrow> codebuilder" where
  "indent cb = cb\<lparr>indent_level := indent_level cb + INDENT_STEP\<rparr>"

definition dedent :: "codebuilder \<Rightarrow> codebuilder" where
  "dedent cb = cb\<lparr>indent_level := indent_level cb - INDENT_STEP\<rparr>"

definition add_section :: "codebuilder \<Rightarrow> codebuilder \<times> codebuilder" where
  "add_section cb = (cb\<lparr>code := code cb @ [Section]\<rparr>, new_codebuilder (indent_level cb))"

text \<open>\<^verbatim>\<open>__str__\<close>: the lines in order, the section's lines in the section's place.\<close>

fun item_lines :: "(int \<times> pyline) list \<Rightarrow> item \<Rightarrow> (int \<times> pyline) list" where
  "item_lines sect (Ln i l) = [(i, l)]"
| "item_lines sect Section = sect"

definition source_lines :: "codebuilder \<Rightarrow> codebuilder \<Rightarrow> (int \<times> pyline) list" where
  "source_lines cb sect =
     concat (map (item_lines (concat (map (item_lines []) (code sect)))) (code cb))"

definition python_source :: "(int \<times> pyline) list \<Rightarrow> string" where
  "python_source ls =
     concat (map (\<lambda>(i, l). replicate (nat i) CHR '' '' @ line_text l @ [CHR 0x0A]) ls)"

section \<open>Errors\<close>

text \<open>
  The exception classes of the host language that the engine can meet. A class that
  derives from one of \<open>TypeError\<close>, \<open>AttributeError\<close>, \<open>KeyError\<close>, \<open>ValueError\<close> or
  \<open>IndexError\<close> counts as that one (an \<^verbatim>\<open>except\<close> clause catches it the same way);
  \<open>OtherException\<close> is any other class that derives from \<^verbatim>\<open>Exception\<close>, and \<open>NonException\<close>
  one that derives from \<^verbatim>\<open>BaseException\<close> only (\<^verbatim>\<open>SystemExit\<close>, \<^verbatim>\<open>KeyboardInterrupt\<close>,
  \<^verbatim>\<open>GeneratorExit\<close>).
\<close>

datatype exc =
    TypeError
  | AttributeError
  | KeyError string
  | ValueError
  | IndexError
  | UnboundLocalError string
  | SyntaxError
  | AssertionError
  | OtherException string
  | NonException string

text \<open>
  What stops the construction of a \<^verbatim>\<open>Template\<close>: the engine's own
  \<^verbatim>\<open>TemplateSyntaxError("%s: %r" % (msg, thing))\<close>, kept as \<open>msg\<close> and \<open>thing\<close>, or an
  exception of the host. \<open>NotModelled\<close> is not an exception: it marks a generated text
  that the host parser does not read the way this theory reads it (see \<open>get_globals\<close>).
\<close>

datatype failure =
    TemplateSyntaxError string string
  | Raised exc
  | NotModelled string

definition message :: "string \<Rightarrow> string \<Rightarrow> string" where
  "message msg thing = msg @ '': '' @ py_repr thing"

definition syntax_error :: "string \<Rightarrow> string \<Rightarrow> failure + 'a" where
  "syntax_error msg thing = Inl (TemplateSyntaxError msg thing)"

section \<open>Compiling a template\<close>

text \<open>\<^verbatim>\<open>re.match(pattern, name)\<close> for a pattern without metacharacters: the pattern is a
  prefix of the name. \<^verbatim>\<open>_variable\<close> calls it with the pattern \<^verbatim>\<open>r""\<close>.\<close>

definition re_match :: "string \<Rightarrow> string \<Rightarrow> bool" where
  "re_match pattern name = startswith name pattern"

text \<open>The two registries \<^verbatim>\<open>all_vars\<close> and \<^verbatim>\<open>loop_vars\<close> are Python sets. They are lists
  without repetition here, the name inserted last in front; the order in which Python
  iterates over a set is not fixed, and the theorems below do not say which of several
  names comes first.\<close>

definition variable :: "string \<Rightarrow> string list \<Rightarrow> failure + string list" where
  "variable name vars_set =
     (if \<not> re_match '''' name then syntax_error ''Not a valid variable name'' name
      else Inr (List.insert name vars_set))"

text \<open>The loop of the pipe branch of \<^verbatim>\<open>_expr_code\<close>: \<^verbatim>\<open>for func in pipes[1:]\<close>.\<close>

fun pipe_loop :: "string list \<Rightarrow> pyexpr \<Rightarrow> string list \<Rightarrow> failure + pyexpr \<times> string list" where
  "pipe_loop [] e av = Inr (e, av)"
| "pipe_loop (func # funcs) e av =
     (case variable func av of
        Inl err \<Rightarrow> Inl err
      | Inr av' \<Rightarrow> pipe_loop funcs (CCall func e) av')"

lemma split_on_hd_shorter:
  "sep \<in> set s \<Longrightarrow> length (hd (split_on sep s)) < length s"
  by (induction s) (auto split: list.splits)

function expr_code :: "string \<Rightarrow> string list \<Rightarrow> failure + pyexpr \<times> string list" where
  "expr_code expr av =
     (if CHR ''|'' \<in> set expr then
        (case expr_code (hd (split_on CHR ''|'' expr)) av of
           Inl err \<Rightarrow> Inl err
         | Inr (e, av') \<Rightarrow> pipe_loop (tl (split_on CHR ''|'' expr)) e av')
      else if CHR ''.'' \<in> set expr then
        (case expr_code (hd (split_on CHR ''.'' expr)) av of
           Inl err \<Rightarrow> Inl err
         | Inr (e, av') \<Rightarrow> Inr (CDoDots e (tl (split_on CHR ''.'' expr)), av'))
      else
        (case variable expr av of
           Inl err \<Rightarrow> Inl err
         | Inr av' \<Rightarrow> Inr (CVar expr, av')))"
  by pat_completeness auto
termination
  by (relation "measure (\<lambda>(expr, av). length expr)") (auto simp: split_on_hd_shorter)

declare expr_code.simps [simp del]

text \<open>
  The attributes that \<^verbatim>\<open>__init__\<close> sets on \<^verbatim>\<open>self\<close> before the main loop. \<^verbatim>\<open>self.context\<close>
  is a dictionary object of its own: \<open>self_context\<close> is its address in the heap of
  dictionaries (see \<open>Template\<close>).
\<close>

record template =
  self_context :: nat
  all_vars :: "string list"
  loop_vars :: "string list"

text \<open>The state of the main loop: \<^verbatim>\<open>self\<close>, the builder \<^verbatim>\<open>code\<close> with its section
  \<^verbatim>\<open>vars_code\<close>, the list \<^verbatim>\<open>buffered\<close> and the stack \<^verbatim>\<open>ops_stack\<close> (a Python list,
  pushed and popped at its end).\<close>

record tstate = template +
  builder :: codebuilder
  vars_code :: codebuilder
  buffered :: "pyitem list"
  ops_stack :: "string list"

definition flush_output :: "tstate \<Rightarrow> tstate" where
  "flush_output st =
     (if length (buffered st) = 1 then
        st\<lparr>builder := add_line (AppendResult (hd (buffered st))) (builder st), buffered := []\<rparr>
      else if length (buffered st) > 1 then
        st\<lparr>builder := add_line (ExtendResult (buffered st)) (builder st), buffered := []\<rparr>
      else st\<lparr>buffered := []\<rparr>)"

definition do_if :: "tstate \<Rightarrow> string \<Rightarrow> string list \<Rightarrow> failure + tstate" where
  "do_if st token words =
     (if length words \<noteq> 2 then syntax_error ''Don't understand if'' token
      else
        (case expr_code (words ! 1) (all_vars st) of
           Inl err \<Rightarrow> Inl err
         | Inr (e, av) \<Rightarrow>
             Inr (st\<lparr>ops_stack := ops_stack st @ [''if''],
                     all_vars := av,
                     builder := indent (add_line (IfHead e) (builder st))\<rparr>)))"

definition do_for :: "tstate \<Rightarrow> string \<Rightarrow> string list \<Rightarrow> failure + tstate" where
  "do_for st token words =
     (if length words \<noteq> 4 \<or> words ! 2 \<noteq> ''in'' then syntax_error ''Don't understand for'' token
      else
        (case variable (words ! 1) (loop_vars st) of
           Inl err \<Rightarrow> Inl err
         | Inr lv \<Rightarrow>
            (case expr_code (words ! 3) (all_vars st) of
               Inl err \<Rightarrow> Inl err
             | Inr (e, av) \<Rightarrow>
                 Inr (st\<lparr>ops_stack := ops_stack st @ [''for''],
                         loop_vars := lv,
                         all_vars := av,
                         builder := indent (add_line (ForHead (words ! 1) e) (builder st))\<rparr>))))"

definition do_end :: "tstate \<Rightarrow> string \<Rightarrow> string list \<Rightarrow> failure + tstate" where
  "do_end st token words =
     (if length words \<noteq> 1 then syntax_error ''Don't understand end'' token
      else
        (let end_what = drop 3 (words ! 0) in
         if ops_stack st = [] then syntax_error ''Too many ends'' token
         else
           (let start_what = last (ops_stack st) in
            if start_what \<noteq> end_what then syntax_error ''Mismatched end tag'' end_what
            else Inr (st\<lparr>ops_stack := butlast (ops_stack st),
                         builder := dedent (builder st)\<rparr>))))"

text \<open>One turn of \<^verbatim>\<open>for token in tokens\<close>; \<open>classify\<close> is the chain of \<^verbatim>\<open>startswith\<close> tests.
  With no word in the tag, \<^verbatim>\<open>words[0]\<close> raises \<^verbatim>\<open>IndexError\<close>.\<close>

definition process_token :: "tstate \<Rightarrow> string \<Rightarrow> failure + tstate" where
  "process_token st token =
     (case classify token of
        Comment \<Rightarrow> Inr st
      | Output \<Rightarrow>
          (case expr_code (strip (inner_text token)) (all_vars st) of
             Inl err \<Rightarrow> Inl err
           | Inr (expr, av) \<Rightarrow> Inr (st\<lparr>all_vars := av, buffered := buffered st @ [ToStr expr]\<rparr>))
      | Action \<Rightarrow>
          (let st' = flush_output st;
               words = split_ws (strip (inner_text token))
           in if words = [] then Inl (Raised IndexError)
              else if words ! 0 = ''if'' then do_if st' token words
              else if words ! 0 = ''for'' then do_for st' token words
              else if startswith (words ! 0) ''end'' then do_end st' token words
              else syntax_error ''Don't understand tag'' (words ! 0))
      | Literal \<Rightarrow>
          (if token \<noteq> [] then Inr (st\<lparr>buffered := buffered st @ [StrLit token]\<rparr>)
           else Inr st))"

fun process_tokens :: "tstate \<Rightarrow> string list \<Rightarrow> failure + tstate" where
  "process_tokens st [] = Inr st"
| "process_tokens st (token # tokens) =
     (case process_token st token of
        Inl err \<Rightarrow> Inl err
      | Inr st' \<Rightarrow> process_tokens st' tokens)"

text \<open>The state when the main loop starts: the \<^verbatim>\<open>def\<close> line, the section for the
  variable loads and the four fixed lines, at one level of indentation.\<close>

definition initial_state :: "nat \<Rightarrow> tstate" where
  "initial_state a =
     (let (code0, vars) = add_section (indent (add_line DefRender (new_codebuilder 0)))
      in \<lparr>self_context = a, all_vars = [], loop_vars = [],
          builder = add_line InitToStr (add_line InitExtend (add_line InitAppend
                      (add_line InitResult code0))),
          vars_code = vars, buffered = [], ops_stack = []\<rparr>)"

text \<open>What follows the main loop, up to the call of \<^verbatim>\<open>get_globals\<close>.\<close>

definition finish :: "tstate \<Rightarrow> failure + tstate" where
  "finish st =
     (if ops_stack st \<noteq> [] then syntax_error ''Unmatched action tag'' (last (ops_stack st))
      else
        (let st1 = flush_output st;
             names = filter (\<lambda>v. v \<notin> set (loop_vars st1)) (all_vars st1);
             st2 = st1\<lparr>vars_code := fold (\<lambda>v. add_line (LoadVar v)) names (vars_code st1)\<rparr>
         in Inr (st2\<lparr>builder := dedent (add_line ReturnJoin (builder st2))\<rparr>)))"

section \<open>What exec makes of the generated text\<close>

text \<open>
  \<^verbatim>\<open>get_globals\<close> hands the text to \<^verbatim>\<open>exec\<close>, which compiles it and runs the one \<^verbatim>\<open>def\<close>
  statement it holds. What the host makes of the text is given here for the texts the
  builder can produce: lines that each come from one of the format strings, at some
  indentation. A statement is a simple line, or the header of an \<^verbatim>\<open>if\<close>, a \<^verbatim>\<open>for\<close> or the
  \<^verbatim>\<open>def\<close> with its block.
\<close>

datatype stmt =
    Simple pyline
  | SIf pyexpr "stmt list"
  | SFor string pyexpr "stmt list"
  | SDef "stmt list"

definition is_header :: "pyline \<Rightarrow> bool" where
  "is_header l = (case l of DefRender \<Rightarrow> True | IfHead e \<Rightarrow> True | ForHead v e \<Rightarrow> True | _ \<Rightarrow> False)"

definition compound :: "pyline \<Rightarrow> stmt list \<Rightarrow> stmt" where
  "compound l body =
     (case l of IfHead e \<Rightarrow> SIf e body | ForHead v e \<Rightarrow> SFor v e body | _ \<Rightarrow> SDef body)"

text \<open>
  The block structure that Python reads from the indentation. A block is a run of
  lines at one level; a header takes the lines after it that are indented more deeply
  as its block, which must not be empty and starts at the level of its first line; a
  line at another level than its block, or a header without a block, is the host's
  \<^verbatim>\<open>IndentationError\<close>, a \<^verbatim>\<open>SyntaxError\<close>. The builder indents by steps of four
  spaces and writes no tabs, blank lines or continuation lines.
\<close>

definition deeper :: "int \<Rightarrow> int \<times> pyline \<Rightarrow> bool" where
  "deeper lvl p = (lvl < fst p)"

function parse_block :: "int \<Rightarrow> (int \<times> pyline) list \<Rightarrow> exc + stmt list" where
  "parse_block lvl [] = Inr []"
| "parse_block lvl ((i, l) # rest) =
     (if i \<noteq> lvl then Inl SyntaxError
      else if is_header l then
        (if takeWhile (deeper lvl) rest = [] then Inl SyntaxError
         else
           (case parse_block (fst (hd (takeWhile (deeper lvl) rest)))
                             (takeWhile (deeper lvl) rest) of
              Inl e \<Rightarrow> Inl e
            | Inr body \<Rightarrow>
                (case parse_block lvl (dropWhile (deeper lvl) rest) of
                   Inl e \<Rightarrow> Inl e
                 | Inr after \<Rightarrow> Inr (compound l body # after))))
      else
        (case parse_block lvl rest of
           Inl e \<Rightarrow> Inl e
         | Inr after \<Rightarrow> Inr (Simple l # after)))"
  by pat_completeness auto
termination
  by (relation "measure (\<lambda>(lvl, ls). length ls)")
     (auto simp: less_Suc_eq_le length_takeWhile_le length_dropWhile_le)

text \<open>
  The format strings put the names of the template into the generated text behind the
  prefix \<^verbatim>\<open>c_\<close>, unchecked. With a name made of letters, digits and underscores the
  result is one identifier and the line reads as its format string says. With any
  other name the host reads something else (an operator, a call, a syntax error), which
  this theory does not follow: \<open>get_globals\<close> then answers \<open>NotModelled\<close> with the first
  such name. Limits of the host implementation, such as the deepest nesting of blocks
  its parser accepts, are not modelled either.
\<close>

definition ident_char :: "char \<Rightarrow> bool" where
  "ident_char c =
     (let n = (of_char c :: nat)
      in c = CHR ''_'' \<or> (48 \<le> n \<and> n \<le> 57) \<or> (65 \<le> n \<and> n \<le> 90) \<or> (97 \<le> n \<and> n \<le> 122))"

definition plain_name :: "string \<Rightarrow> bool" where
  "plain_name name = list_all ident_char name"

fun expr_names :: "pyexpr \<Rightarrow> string list" where
  "expr_names (CVar name) = [name]"
| "expr_names (CCall func e) = func # expr_names e"
| "expr_names (CDoDots e dots) = expr_names e"

fun item_names :: "pyitem \<Rightarrow> string list" where
  "item_names (ToStr e) = expr_names e"
| "item_names (StrLit token) = []"

fun line_names :: "pyline \<Rightarrow> string list" where
  "line_names (AppendResult b) = item_names b"
| "line_names (ExtendResult bs) = concat (map item_names bs)"
| "line_names (IfHead e) = expr_names e"
| "line_names (ForHead v e) = v # expr_names e"
| "line_names (LoadVar v) = [v]"
| "line_names _ = []"

text \<open>\<^verbatim>\<open>get_globals\<close>, followed by the lookup of \<^verbatim>\<open>'render_function'\<close> in the globals:
  the assertion on the indentation, then the body of the function that the text
  defines.\<close>

definition get_globals :: "codebuilder \<Rightarrow> codebuilder \<Rightarrow> failure + stmt list" where
  "get_globals cb sect =
     (if indent_level cb \<noteq> 0 then Inl (Raised AssertionError)
      else
        (let ls = source_lines cb sect in
         case filter (\<lambda>n. \<not> plain_name n) (concat (map (line_names \<circ> snd) ls)) of
           n # ns \<Rightarrow> Inl (NotModelled n)
         | [] \<Rightarrow>
            (case parse_block 0 ls of
               Inl e \<Rightarrow> Inl (Raised e)
             | Inr [SDef body] \<Rightarrow> Inr body
             | Inr _ \<Rightarrow> Inl (NotModelled ''''))))"

section \<open>Running the compiled function\<close>

text \<open>
  The values of a context are values of the host language, of a type \<open>'v\<close> that the
  theory does not fix. The generated function and \<^verbatim>\<open>_do_dots\<close> reach them through these
  operations only: \<^verbatim>\<open>value[dot]\<close>, \<^verbatim>\<open>getattr(value, dot)\<close>, \<^verbatim>\<open>callable(value)\<close>, a call with
  the given arguments, the truth value that an \<^verbatim>\<open>if\<close> tests, the items that a \<^verbatim>\<open>for\<close>
  iterates over, \<^verbatim>\<open>str(value)\<close>, the formatting \<^verbatim>\<open>"...%s..." % value\<close> of line 128, and the
  value of a string literal. Each may raise. The operations are functions of their
  arguments: they do not write to the contexts. An iterable is given by the list of its
  items, so only finite ones are covered.
\<close>

record 'v host =
  getitem :: "'v \<Rightarrow> string \<Rightarrow> exc + 'v"
  getattr :: "'v \<Rightarrow> string \<Rightarrow> exc + 'v"
  callable :: "'v \<Rightarrow> bool"
  call :: "'v \<Rightarrow> 'v list \<Rightarrow> exc + 'v"
  truth :: "'v \<Rightarrow> exc + bool"
  iter :: "'v \<Rightarrow> exc + 'v list"
  to_str :: "'v \<Rightarrow> exc + string"
  percent_s :: "'v \<Rightarrow> exc + string"
  str_value :: "string \<Rightarrow> 'v"

text \<open>
  \<^verbatim>\<open>_do_dots\<close>. \<open>lookup_failure\<close> is the tuple of the inner \<^verbatim>\<open>except\<close> clause and
  \<open>is_Exception\<close> the class of the outer one. \<open>dots_loop\<close> is the \<^verbatim>\<open>for\<close> loop inside the
  outer \<^verbatim>\<open>try\<close>; \<open>do_dots\<close> adds the handler, which formats the message with \<^verbatim>\<open>% var\<close>
  (an operation that can raise in its turn), prints it and yields the empty string.
  What is printed is not kept.
\<close>

definition lookup_failure :: "exc \<Rightarrow> bool" where
  "lookup_failure e =
     (case e of TypeError \<Rightarrow> True | AttributeError \<Rightarrow> True | KeyError k \<Rightarrow> True
              | ValueError \<Rightarrow> True | IndexError \<Rightarrow> True | _ \<Rightarrow> False)"

definition is_Exception :: "exc \<Rightarrow> bool" where
  "is_Exception e = (case e of NonException n \<Rightarrow> False | _ \<Rightarrow> True)"

fun dots_loop :: "'v host \<Rightarrow> 'v \<Rightarrow> string list \<Rightarrow> exc + 'v" where
  "dots_loop H val [] = Inr val"
| "dots_loop H val (dot # dots) =
     (case (case getitem H val dot of
              Inr v \<Rightarrow> Inr v
            | Inl e \<Rightarrow> if lookup_failure e then getattr H val dot else Inl e) of
        Inl e \<Rightarrow> Inl e
      | Inr v \<Rightarrow>
          if callable H v then
            (case call H v [] of Inl e \<Rightarrow> Inl e | Inr v' \<Rightarrow> dots_loop H v' dots)
          else dots_loop H v dots)"

definition do_dots :: "'v host \<Rightarrow> 'v \<Rightarrow> string list \<Rightarrow> exc + 'v" where
  "do_dots H var dots =
     (case dots_loop H var dots of
        Inr v \<Rightarrow> Inr v
      | Inl e \<Rightarrow>
          if is_Exception e then
            (case percent_s H var of
               Inl e' \<Rightarrow> Inl e'
             | Inr printed \<Rightarrow> Inr (str_value H ''''))
          else Inl e)"

text \<open>
  The resolution of a dotted path in the words of the specification, to compare
  \<open>dots_loop\<close> with: for each successive name, mapping-style lookup first, attribute-style
  lookup by that name when the lookup fails with one of the five lookup errors, then a
  call with no arguments when the value found is callable; the value so obtained is
  the current value for the next name. The path is folded from the left, an exception
  ending the resolution.
\<close>

definition spec_lookup :: "'v host \<Rightarrow> 'v \<Rightarrow> string \<Rightarrow> exc + 'v" where
  "spec_lookup H cur name =
     (case getitem H cur name of
        Inr x \<Rightarrow> Inr x
      | Inl e \<Rightarrow> if lookup_failure e then getattr H cur name else Inl e)"

definition spec_invoke :: "'v host \<Rightarrow> 'v \<Rightarrow> exc + 'v" where
  "spec_invoke H x = (if callable H x then call H x [] else Inr x)"

definition spec_step :: "'v host \<Rightarrow> exc + 'v \<Rightarrow> string \<Rightarrow> exc + 'v" where
  "spec_step H acc name =
     (case acc of
        Inl e \<Rightarrow> Inl e
      | Inr cur \<Rightarrow> (case spec_lookup H cur name of Inl e \<Rightarrow> Inl e | Inr x \<Rightarrow> spec_invoke H x))"

definition spec_resolve :: "'v host \<Rightarrow> 'v \<Rightarrow> string list \<Rightarrow> exc + 'v" where
  "spec_resolve H v path = foldl (spec_step H) (Inr v) path"


text \<open>
  The expressions of the generated function, evaluated in its local variables. A
  dictionary is a map from names to values. The variable \<^verbatim>\<open>c_name\<close> is kept under
  \<open>name\<close>; reading a local variable that was never assigned raises \<^verbatim>\<open>UnboundLocalError\<close>.
  \<^verbatim>\<open>to_str\<close> is \<^verbatim>\<open>str\<close>, and a literal stands for itself.
\<close>

type_synonym 'v dict = "string \<rightharpoonup> 'v"

fun eval :: "'v host \<Rightarrow> 'v dict \<Rightarrow> pyexpr \<Rightarrow> exc + 'v" where
  "eval H env (CVar name) =
     (case env name of None \<Rightarrow> Inl (UnboundLocalError name) | Some v \<Rightarrow> Inr v)"
| "eval H env (CCall func e) =
     (case env func of
        None \<Rightarrow> Inl (UnboundLocalError func)
      | Some f \<Rightarrow> (case eval H env e of Inl x \<Rightarrow> Inl x | Inr v \<Rightarrow> call H f [v]))"
| "eval H env (CDoDots e dots) =
     (case eval H env e of Inl x \<Rightarrow> Inl x | Inr v \<Rightarrow> do_dots H v dots)"

fun eval_item :: "'v host \<Rightarrow> 'v dict \<Rightarrow> pyitem \<Rightarrow> exc + string" where
  "eval_item H env (ToStr e) =
     (case eval H env e of Inl x \<Rightarrow> Inl x | Inr v \<Rightarrow> to_str H v)"
| "eval_item H env (StrLit token) = Inr token"

fun eval_items :: "'v host \<Rightarrow> 'v dict \<Rightarrow> pyitem list \<Rightarrow> exc + string list" where
  "eval_items H env [] = Inr []"
| "eval_items H env (b # bs) =
     (case eval_item H env b of
        Inl x \<Rightarrow> Inl x
      | Inr s \<Rightarrow> (case eval_items H env bs of Inl x \<Rightarrow> Inl x | Inr ss \<Rightarrow> Inr (s # ss)))"

text \<open>
  The run of the function. Its frame holds the local variables \<^verbatim>\<open>c_...\<close> and the list
  \<^verbatim>\<open>result\<close>; the function has one local scope, so that an \<^verbatim>\<open>if\<close> or a \<^verbatim>\<open>for\<close> opens no
  new one. A statement either hands the frame on to the next statement or returns.
  \<open>ctx\<close> is the dictionary passed as \<^verbatim>\<open>context\<close>, read by the variable loads
  \<^verbatim>\<open>c_name = context['name']\<close>. A \<^verbatim>\<open>for\<close> assigns each item in turn to its target and
  runs its block.
\<close>

record 'v frame =
  locals :: "'v dict"
  result :: "string list"

datatype pyret = RStr string | RNone

datatype 'v flow = Next "'v frame" | Return pyret

definition exec_line :: "'v host \<Rightarrow> 'v dict \<Rightarrow> pyline \<Rightarrow> 'v frame \<Rightarrow> exc + 'v flow" where
  "exec_line H ctx l fr =
     (case l of
        LoadVar v \<Rightarrow>
          (case ctx v of
             None \<Rightarrow> Inl (KeyError v)
           | Some x \<Rightarrow> Inr (Next (fr\<lparr>locals := (locals fr)(v \<mapsto> x)\<rparr>)))
      | InitResult \<Rightarrow> Inr (Next (fr\<lparr>result := []\<rparr>))
      | AppendResult b \<Rightarrow>
          (case eval_item H (locals fr) b of
             Inl x \<Rightarrow> Inl x
           | Inr s \<Rightarrow> Inr (Next (fr\<lparr>result := result fr @ [s]\<rparr>)))
      | ExtendResult bs \<Rightarrow>
          (case eval_items H (locals fr) bs of
             Inl x \<Rightarrow> Inl x
           | Inr ss \<Rightarrow> Inr (Next (fr\<lparr>result := result fr @ ss\<rparr>)))
      | ReturnJoin \<Rightarrow> Inr (Return (RStr (concat (result fr))))
      | _ \<Rightarrow> Inr (Next fr))"

fun exec_stmt :: "'v host \<Rightarrow> 'v dict \<Rightarrow> stmt \<Rightarrow> 'v frame \<Rightarrow> exc + 'v flow"
  and exec_block :: "'v host \<Rightarrow> 'v dict \<Rightarrow> stmt list \<Rightarrow> 'v frame \<Rightarrow> exc + 'v flow"
  and exec_for :: "'v host \<Rightarrow> 'v dict \<Rightarrow> string \<Rightarrow> stmt list \<Rightarrow> 'v list \<Rightarrow> 'v frame \<Rightarrow> exc + 'v flow"
where
  "exec_stmt H ctx (Simple l) fr = exec_line H ctx l fr"
| "exec_stmt H ctx (SIf e body) fr =
     (case eval H (locals fr) e of
        Inl x \<Rightarrow> Inl x
      | Inr v \<Rightarrow>
          (case truth H v of
             Inl x \<Rightarrow> Inl x
           | Inr b \<Rightarrow> if b then exec_block H ctx body fr else Inr (Next fr)))"
| "exec_stmt H ctx (SFor var e body) fr =
     (case eval H (locals fr) e of
        Inl x \<Rightarrow> Inl x
      | Inr v \<Rightarrow>
          (case iter H v of
             Inl x \<Rightarrow> Inl x
           | Inr vals \<Rightarrow> exec_for H ctx var body vals fr))"
| "exec_stmt H ctx (SDef body) fr = Inr (Next fr)"
| "exec_block H ctx [] fr = Inr (Next fr)"
| "exec_block H ctx (s # ss) fr =
     (case exec_stmt H ctx s fr of
        Inl x \<Rightarrow> Inl x
      | Inr (Return r) \<Rightarrow> Inr (Return r)
      | Inr (Next fr') \<Rightarrow> exec_block H ctx ss fr')"
| "exec_for H ctx var body [] fr = Inr (Next fr)"
| "exec_for H ctx var body (x # xs) fr =
     (case exec_block H ctx body (fr\<lparr>locals := (locals fr)(var \<mapsto> x)\<rparr>) of
        Inl x \<Rightarrow> Inl x
      | Inr (Return r) \<Rightarrow> Inr (Return r)
      | Inr (Next fr') \<Rightarrow> exec_for H ctx var body xs fr')"

section \<open>The Template object\<close>

text \<open>A constructed \<^verbatim>\<open>Template\<close>: the attributes of \<open>template\<close> and
  \<^verbatim>\<open>_render_function\<close>. \<open>dict_update target source\<close> is \<^verbatim>\<open>target.update(source)\<close> on the
  dictionaries at these addresses: the entries of the source are written over those of
  the target.\<close>

record compiled = template +
  render_function :: "stmt list"

definition dict_update :: "nat \<Rightarrow> nat \<Rightarrow> 'v dict list \<Rightarrow> 'v dict list" where
  "dict_update target source heap = heap[target := (heap ! target) ++ (heap ! source)]"

text \<open>\<^verbatim>\<open>Template.__init__\<close> up to the call of \<^verbatim>\<open>get_globals\<close>: the main loop over the
  tokens and what follows it.\<close>

definition parse_template :: "nat \<Rightarrow> string \<Rightarrow> failure + tstate" where
  "parse_template a text =
     (case process_tokens (initial_state a) (tokenize text) of
        Inl err \<Rightarrow> Inl err
      | Inr st \<Rightarrow> finish st)"

text \<open>
  \<^verbatim>\<open>Template(text, *contexts)\<close>. The dictionaries live in a heap, a list addressed by
  position: \<open>contexts\<close> are the addresses of the caller's dictionaries, and
  \<^verbatim>\<open>self.context = {}\<close> takes the next free address. The values in a dictionary are
  values of the host; the callables among them are functions of their arguments and do
  not reach the heap.
\<close>

definition Template :: "string \<Rightarrow> nat list \<Rightarrow> 'v dict list \<Rightarrow> failure + compiled \<times> 'v dict list" where
  "Template text contexts heap =
     (let a = length heap;
          heap' = fold (dict_update a) contexts (heap @ [Map.empty])
      in case parse_template a text of
           Inl err \<Rightarrow> Inl err
         | Inr st \<Rightarrow>
            (case get_globals (builder st) (vars_code st) of
               Inl err \<Rightarrow> Inl err
             | Inr body \<Rightarrow>
                 Inr (\<lparr>self_context = a, all_vars = all_vars st, loop_vars = loop_vars st,
                       render_function = body\<rparr>, heap')))"

definition call_function :: "'v host \<Rightarrow> stmt list \<Rightarrow> 'v dict \<Rightarrow> exc + pyret" where
  "call_function H body ctx =
     (case exec_block H ctx body \<lparr>locals = Map.empty, result = []\<rparr> of
        Inl x \<Rightarrow> Inl x
      | Inr (Return r) \<Rightarrow> Inr r
      | Inr (Next fr) \<Rightarrow> Inr RNone)"

text \<open>
  \<^verbatim>\<open>render(context)\<close>. \<open>ctx\<close> is \<open>None\<close> or the address of the caller's dictionary.
  \<open>render_context\<close> is the heap after the first three lines: \<^verbatim>\<open>dict(self.context)\<close> is a
  new dictionary at the next free address, which \<^verbatim>\<open>update\<close> then writes to when the
  argument is true, that is, a dictionary that is not empty.
\<close>

definition render_context :: "compiled \<Rightarrow> nat option \<Rightarrow> 'v dict list \<Rightarrow> 'v dict list" where
  "render_context t ctx heap =
     (let heap1 = heap @ [heap ! self_context t]
      in case ctx of
           None \<Rightarrow> heap1
         | Some c \<Rightarrow> if heap1 ! c \<noteq> Map.empty then dict_update (length heap) c heap1 else heap1)"

definition render :: "'v host \<Rightarrow> compiled \<Rightarrow> nat option \<Rightarrow> 'v dict list \<Rightarrow> (exc + pyret) \<times> 'v dict list" where
  "render H t ctx heap =
     (let heap' = render_context t ctx heap
      in (call_function H (render_function t) (heap' ! length heap), heap'))"

text \<open>
  \<^verbatim>\<open>try_render\<close> of the test suite, without its comparison:
  \<^verbatim>\<open>Template(text).render(ctx or {})\<close>, the context being the only dictionary of the heap.
\<close>

definition try_render :: "'v host \<Rightarrow> string \<Rightarrow> 'v dict \<Rightarrow> failure + (exc + pyret)" where
  "try_render H text ctx =
     (case Template text [] [ctx] of
        Inl err \<Rightarrow> Inl err
      | Inr (t, heap) \<Rightarrow> Inr (fst (render H t (Some 0) heap)))"

section \<open>An example host\<close>

text \<open>
  One host to evaluate the theorems on: a part of the values of Python 2 with the
  operations above. A dictionary and an object are given by their entries and their
  attributes; the attributes that every Python value has (\<^verbatim>\<open>__class__\<close>, the methods of
  \<^verbatim>\<open>str\<close> and so on) are left out, and so are integer subscripts. \<open>PFun\<close> is one of three
  functions, named: \<^verbatim>\<open>upper\<close> and \<^verbatim>\<open>first\<close> are the filters of the test suite
  (\<^verbatim>\<open>lambda x: x.upper()\<close> and \<^verbatim>\<open>lambda x: x[0]\<close>), \<^verbatim>\<open>exit\<close> raises \<^verbatim>\<open>SystemExit\<close> like
  \<^verbatim>\<open>sys.exit\<close>. \<open>PThunk x\<close> is a callable without arguments that returns \<open>x\<close>. \<^verbatim>\<open>str\<close> of a
  container or an object is not spelled out: \<open><object>\<close> stands for it. Formatting with
  \<^verbatim>\<open>%\<close> takes a tuple as the list of the arguments, so that a tuple of another length
  than one raises \<^verbatim>\<open>TypeError\<close>.
\<close>

datatype pyval =
    PNone
  | PBool bool
  | PStr string
  | PList "pyval list"
  | PTuple "pyval list"
  | PDict "(string \<times> pyval) list"
  | PObj "(string \<times> pyval) list"
  | PFun string
  | PThunk pyval

definition upper_char :: "char \<Rightarrow> char" where
  "upper_char c =
     (case map_of (zip ''abcdefghijklmnopqrstuvwxyz'' ''ABCDEFGHIJKLMNOPQRSTUVWXYZ'') c of
        Some u \<Rightarrow> u
      | None \<Rightarrow> c)"

definition py_getitem :: "pyval \<Rightarrow> string \<Rightarrow> exc + pyval" where
  "py_getitem v k =
     (case v of
        PDict kvs \<Rightarrow> (case map_of kvs k of Some x \<Rightarrow> Inr x | None \<Rightarrow> Inl (KeyError k))
      | _ \<Rightarrow> Inl TypeError)"

definition py_getattr :: "pyval \<Rightarrow> string \<Rightarrow> exc + pyval" where
  "py_getattr v k =
     (case v of
        PObj attrs \<Rightarrow> (case map_of attrs k of Some x \<Rightarrow> Inr x | None \<Rightarrow> Inl AttributeError)
      | _ \<Rightarrow> Inl AttributeError)"

definition py_callable :: "pyval \<Rightarrow> bool" where
  "py_callable v = (case v of PFun f \<Rightarrow> True | PThunk x \<Rightarrow> True | _ \<Rightarrow> False)"

definition py_call :: "pyval \<Rightarrow> pyval list \<Rightarrow> exc + pyval" where
  "py_call f args =
     (if f = PFun ''upper'' then
        (case args of [PStr s] \<Rightarrow> Inr (PStr (map upper_char s)) | [x] \<Rightarrow> Inl AttributeError
                    | _ \<Rightarrow> Inl TypeError)
      else if f = PFun ''first'' then
        (case args of
           [PStr s] \<Rightarrow> (case s of [] \<Rightarrow> Inl IndexError | c # cs \<Rightarrow> Inr (PStr [c]))
         | [PList xs] \<Rightarrow> (case xs of [] \<Rightarrow> Inl IndexError | x # ys \<Rightarrow> Inr x)
         | [PTuple xs] \<Rightarrow> (case xs of [] \<Rightarrow> Inl IndexError | x # ys \<Rightarrow> Inr x)
         | [PDict kvs] \<Rightarrow> Inl (KeyError ''0'')
         | [x] \<Rightarrow> Inl TypeError
         | _ \<Rightarrow> Inl TypeError)
      else if f = PFun ''exit'' then Inl (NonException ''SystemExit'')
      else (case f of PThunk x \<Rightarrow> (if args = [] then Inr x else Inl TypeError)
                    | _ \<Rightarrow> Inl TypeError))"

definition py_truth :: "pyval \<Rightarrow> exc + bool" where
  "py_truth v =
     Inr (case v of
            PNone \<Rightarrow> False
          | PBool b \<Rightarrow> b
          | PStr s \<Rightarrow> s \<noteq> []
          | PList xs \<Rightarrow> xs \<noteq> []
          | PTuple xs \<Rightarrow> xs \<noteq> []
          | PDict kvs \<Rightarrow> kvs \<noteq> []
          | _ \<Rightarrow> True)"

definition py_iter :: "pyval \<Rightarrow> exc + pyval list" where
  "py_iter v =
     (case v of
        PStr s \<Rightarrow> Inr (map (\<lambda>c. PStr [c]) s)
      | PList xs \<Rightarrow> Inr xs
      | PTuple xs \<Rightarrow> Inr xs
      | PDict kvs \<Rightarrow> Inr (map (PStr \<circ> fst) kvs)
      | _ \<Rightarrow> Inl TypeError)"

definition py_to_str :: "pyval \<Rightarrow> exc + string" where
  "py_to_str v =
     (case v of
        PNone \<Rightarrow> Inr ''None''
      | PBool b \<Rightarrow> Inr (if b then ''True'' else ''False'')
      | PStr s \<Rightarrow> Inr s
      | _ \<Rightarrow> Inr ''<object>'')"

definition py_percent_s :: "pyval \<Rightarrow> exc + string" where
  "py_percent_s v =
     (case v of
        PTuple xs \<Rightarrow> (case xs of [x] \<Rightarrow> py_to_str x | _ \<Rightarrow> Inl TypeError)
      | _ \<Rightarrow> py_to_str v)"

definition py :: "pyval host" where
  "py = \<lparr>getitem = py_getitem, getattr = py_getattr, callable = py_callable, call = py_call,
         truth = py_truth, iter = py_iter, to_str = py_to_str, percent_s = py_percent_s,
         str_value = PStr\<rparr>"

text \<open>Two contexts: a tuple of two strings under \<^verbatim>\<open>t\<close>, and under \<^verbatim>\<open>sys\<close> an
  object whose attribute \<^verbatim>\<open>exit\<close> is a function that raises \<^verbatim>\<open>SystemExit\<close>.\<close>

definition ex_tuple_ctx :: "pyval dict" where
  "ex_tuple_ctx = [''t'' \<mapsto> PTuple [PStr ''a'', PStr ''b'']]"

definition ex_exit_ctx :: "pyval dict" where
  "ex_exit_ctx = [''sys'' \<mapsto> PObj [(''exit'', PFun ''exit'')]]"


text \<open>A context with the list \<^verbatim>\<open>xs\<close> of two strings and no \<^verbatim>\<open>x\<close>.\<close>

definition ex_loop_ctx :: "pyval dict" where
  "ex_loop_ctx = [''xs'' \<mapsto> PList [PStr ''p'', PStr ''q'']]"





text \<open>The object of the test \<^verbatim>\<open>test_complex_if\<close>: its attribute \<^verbatim>\<open>return_stuff\<close> is
  a method that returns a dictionary.\<close>

definition ex_obj :: pyval where
  "ex_obj = PObj [(''return_stuff'', PThunk (PDict [(''cond'', PStr ''affirmative'')]))]"

section \<open>Predicates for the proofs\<close>

text \<open>The names that a statement of the generated function assigns: the target of
  a variable load and the target of a \<^verbatim>\<open>for\<close>, also inside nested blocks.\<close>

fun binds :: "stmt \<Rightarrow> string list"
  and binds_block :: "stmt list \<Rightarrow> string list" where
  "binds (Simple l) = (case l of LoadVar v \<Rightarrow> [v] | _ \<Rightarrow> [])"
| "binds (SIf e body) = binds_block body"
| "binds (SFor var e body) = var # binds_block body"
| "binds (SDef body) = []"
| "binds_block [] = []"
| "binds_block (s # ss) = binds s @ binds_block ss"

text \<open>A syntactically valid identifier of Python 2: a letter or an underscore, then
  letters, digits and underscores.\<close>

definition valid_identifier :: "string \<Rightarrow> bool" where
  "valid_identifier name =
     (case name of
        [] \<Rightarrow> False
      | c # cs \<Rightarrow> ident_char c \<and> \<not> (48 \<le> (of_char c :: nat) \<and> (of_char c :: nat) \<le> 57)
                  \<and> list_all ident_char cs)"


text \<open>The names that the generated function reads from the context:
  \<^verbatim>\<open>self.all_vars - self.loop_vars\<close>.\<close>

definition context_names :: "('a template_scheme) \<Rightarrow> string list" where
  "context_names t = filter (\<lambda>v. v \<notin> set (loop_vars t)) (all_vars t)"

text \<open>
  What the main loop keeps true of the builder: the text starts with the \<^verbatim>\<open>def\<close> line,
  the section of the variable loads and \<^verbatim>\<open>result = []\<close>; every line after them is
  indented by at least one step; the indentation is one step per open block, above the
  step of the function body; and the section is still empty.
\<close>

definition body_item :: "item \<Rightarrow> bool" where
  "body_item it = (case it of Ln i l \<Rightarrow> 4 \<le> i | Section \<Rightarrow> False)"

definition builder_inv :: "tstate \<Rightarrow> bool" where
  "builder_inv st \<longleftrightarrow>
     (\<exists>ls. code (builder st) = Ln 0 DefRender # Section # Ln 4 InitResult # ls \<and>
           list_all body_item ls) \<and>
     indent_level (builder st) = 4 + 4 * int (length (ops_stack st)) \<and>
     vars_code st = new_codebuilder 4"

text \<open>The lines of a statement of the generated function, in the order of the text:
  the header of a compound statement, then the lines of its block.\<close>

fun stmt_lines :: "stmt \<Rightarrow> pyline list"
  and block_lines :: "stmt list \<Rightarrow> pyline list" where
  "stmt_lines (Simple l) = [l]"
| "stmt_lines (SIf e body) = IfHead e # block_lines body"
| "stmt_lines (SFor var e body) = ForHead var e # block_lines body"
| "stmt_lines (SDef body) = DefRender # block_lines body"
| "block_lines [] = []"
| "block_lines (s # ss) = stmt_lines s @ block_lines ss"

text \<open>The lines that read the context: the variable loads \<^verbatim>\<open>c_name = ctx['name']\<close>.\<close>

definition is_load :: "pyline \<Rightarrow> bool" where
  "is_load l = (case l of LoadVar v \<Rightarrow> True | _ \<Rightarrow> False)"

text \<open>What the main loop keeps true of the lines it adds to the builder: none of them
  is a variable load, and the target of every \<^verbatim>\<open>for\<close> line is in \<^verbatim>\<open>loop_vars\<close>.\<close>

definition lines_inv :: "tstate \<Rightarrow> bool" where
  "lines_inv st \<longleftrightarrow>
     (\<forall>i l. Ln i l \<in> set (code (builder st)) \<longrightarrow>
        \<not> is_load l \<and> (\<forall>v e. l = ForHead v e \<longrightarrow> v \<in> set (loop_vars st)))"

section \<open>Properties of the tokenizer\<close>















section \<open>Properties of the compilation\<close>

text \<open>The pattern of \<^verbatim>\<open>_variable\<close> is empty, so the test never fails: no name is
  refused, and no expression either.\<close>

lemma variable_ok: "variable name vs = Inr (List.insert name vs)"
  by (simp add: variable_def re_match_def startswith_def)

lemma pipe_loop_ok:
  "pipe_loop funcs e av = Inr (foldl (\<lambda>e f. CCall f e) e funcs, fold List.insert funcs av)"
  by (induction funcs arbitrary: e av) (simp_all add: variable_ok)

lemma expr_code_ok: "\<exists>e av'. expr_code expr av = Inr (e, av')"
proof (induction expr av rule: expr_code.induct)
  case (1 expr av)
  show ?case
  proof (cases "CHR ''|'' \<in> set expr")
    case True
    with 1(1) obtain e av' where "expr_code (hd (split_on CHR ''|'' expr)) av = Inr (e, av')"
      by blast
    with True show ?thesis
      by (subst expr_code.simps) (simp add: pipe_loop_ok)
  next
    case False
    show ?thesis
    proof (cases "CHR ''.'' \<in> set expr")
      case True
      with False 1(2) obtain e av' where "expr_code (hd (split_on CHR ''.'' expr)) av = Inr (e, av')"
        by blast
      with True False show ?thesis
        by (subst expr_code.simps) simp
    next
      case nodot: False
      with False show ?thesis
        by (subst expr_code.simps) (simp add: variable_ok)
    qed
  qed
qed

lemma process_tokens_append:
  "process_tokens st (pre @ rest) =
     (case process_tokens st pre of Inl e \<Rightarrow> Inl e | Inr st' \<Rightarrow> process_tokens st' rest)"
  by (induction pre arbitrary: st) (auto split: sum.splits)

lemma failing_token_stops:
  assumes "tokenize text = pre @ token # post"
    and "process_tokens (initial_state a) pre = Inr st"
    and "process_token st token = Inl e"
  shows "parse_template a text = Inl e"
  using assms by (simp add: parse_template_def process_tokens_append)

lemma Template_parse_failure:
  "parse_template (length heap) text = Inl e \<Longrightarrow> Template text contexts heap = Inl e"
  by (simp add: Template_def)

lemma split_words_spaces:
  "list_all is_space s \<Longrightarrow> split_words [] s = []"
  by (induction s) auto

lemma strip_spaces: "list_all is_space s \<Longrightarrow> strip s = []"
proof -
  assume "list_all is_space s"
  then have d: "dropWhile is_space s = []"
    unfolding dropWhile_eq_Nil_conv list_all_iff .
  show ?thesis unfolding strip_def d by simp
qed

lemma flush_ops_stack [simp]: "ops_stack (flush_output st) = ops_stack st"
  by (simp add: flush_output_def)

lemma end_step:
  assumes "classify token = Action"
    and "split_ws (strip (inner_text token)) = [w]"
    and "startswith w ''end''"
  shows "process_token st token =
           (if ops_stack st = [] then Inl (TemplateSyntaxError ''Too many ends'' token)
            else if last (ops_stack st) \<noteq> drop 3 w
              then Inl (TemplateSyntaxError ''Mismatched end tag'' (drop 3 w))
            else Inr ((flush_output st)\<lparr>ops_stack := butlast (ops_stack st),
                       builder := dedent (builder (flush_output st))\<rparr>))"
proof -
  from assms(3) have "w \<noteq> ''if''" "w \<noteq> ''for''"
    by (auto simp: startswith_def)
  with assms show ?thesis
    by (simp add: process_token_def do_end_def syntax_error_def Let_def)
qed

lemma unmatched:
  assumes "process_tokens (initial_state a) (tokenize text) = Inr st" and "ops_stack st \<noteq> []"
  shows "parse_template a text = Inl (TemplateSyntaxError ''Unmatched action tag'' (last (ops_stack st)))"
  using assms by (simp add: parse_template_def finish_def syntax_error_def)


lemma do_if_errors:
  "do_if st token ws = Inl err \<Longrightarrow> err = TemplateSyntaxError ''Don't understand if'' token"
  using expr_code_ok[of "ws ! 1" "all_vars st"]
  by (auto simp: do_if_def syntax_error_def split: if_splits)

lemma do_for_errors:
  "do_for st token ws = Inl err \<Longrightarrow> err = TemplateSyntaxError ''Don't understand for'' token"
  using expr_code_ok[of "ws ! 3" "all_vars st"]
  by (auto simp: do_for_def syntax_error_def variable_ok split: if_splits)

lemma do_end_errors:
  "do_end st token ws = Inl err \<Longrightarrow>
     err = TemplateSyntaxError ''Don't understand end'' token \<or>
     err = TemplateSyntaxError ''Too many ends'' token \<or>
     err = TemplateSyntaxError ''Mismatched end tag'' (drop 3 (ws ! 0))"
  by (auto simp: do_end_def syntax_error_def Let_def split: if_splits)

lemma process_token_errors:
  assumes "process_token st token = Inl err"
  shows "classify token = Action \<and>
         (err = Raised IndexError \<and> split_ws (strip (inner_text token)) = [] \<or>
          err \<in> {TemplateSyntaxError ''Don't understand if'' token,
                  TemplateSyntaxError ''Don't understand for'' token,
                  TemplateSyntaxError ''Don't understand end'' token,
                  TemplateSyntaxError ''Too many ends'' token,
                  TemplateSyntaxError ''Mismatched end tag''
                    (drop 3 (hd (split_ws (strip (inner_text token))))),
                  TemplateSyntaxError ''Don't understand tag''
                    (hd (split_ws (strip (inner_text token))))})"
proof (cases "classify token")
  case Comment
  with assms show ?thesis by (simp add: process_token_def)
next
  case Output
  with assms expr_code_ok[of "strip (inner_text token)" "all_vars st"] show ?thesis
    by (auto simp: process_token_def)
next
  case Literal
  with assms show ?thesis by (simp add: process_token_def split: if_splits)
next
  case Action
  define ws where "ws = split_ws (strip (inner_text token))"
  show ?thesis
  proof (cases "ws = []")
    case True
    with assms Action show ?thesis by (simp add: process_token_def ws_def)
  next
    case False
    then have hd: "ws ! 0 = hd ws" by (simp add: hd_conv_nth)
    from assms Action False
    consider "do_if (flush_output st) token ws = Inl err"
      | "do_for (flush_output st) token ws = Inl err"
      | "do_end (flush_output st) token ws = Inl err"
      | "err = TemplateSyntaxError ''Don't understand tag'' (ws ! 0)"
      unfolding process_token_def ws_def[symmetric]
      by (simp add: Let_def syntax_error_def split: if_splits)
    then show ?thesis
    proof cases
      case 1 from do_if_errors[OF 1] Action show ?thesis by simp
    next
      case 2 from do_for_errors[OF 2] Action show ?thesis by simp
    next
      case 3 from do_end_errors[OF 3] Action hd show ?thesis by (auto simp: ws_def)
    next
      case 4 with Action hd show ?thesis by (simp add: ws_def)
    qed
  qed
qed

text \<open>Unfolding rules for running the construction on a given template.\<close>

lemmas tokenize_eval = match_tag_def match_alt_def startswith_def

lemmas build_eval =
  Template_def parse_template_def initial_state_def add_section_def add_line_def indent_def
  dedent_def new_codebuilder_def INDENT_STEP_def process_token_def classify_def startswith_def
  strip_def inner_text_def is_space_def split_ws_def do_if_def do_for_def do_end_def
  flush_output_def finish_def get_globals_def source_lines_def variable_def re_match_def
  syntax_error_def plain_name_def ident_char_def is_header_def compound_def deeper_def
  dict_update_def Let_def

text \<open>
  Claim C3, as amended. Block matching while parsing: an action tag of one word that
  starts with \<^verbatim>\<open>end\<close>, met with an empty stack of open blocks, fails with
  \<^verbatim>\<open>TemplateSyntaxError\<close> "Too many ends" and the token; met with a stack whose top
  differs from the text after \<^verbatim>\<open>end\<close>, it fails with "Mismatched end tag" and that text
  after \<^verbatim>\<open>end\<close>; a stack that is not empty after the last token fails the construction
  with "Unmatched action tag" and the kind on top of the stack; the failure of a token
  is the failure of the construction; and every \<^verbatim>\<open>TemplateSyntaxError\<close> of the main loop
  carries either the whole token (the three arity errors and "Too many ends"), the
  text after \<^verbatim>\<open>end\<close> ("Mismatched end tag") or the first word of the tag ("Don't
  understand tag").
\<close>

theorem block_matching_errors:
  "(classify token = Action \<and> split_ws (strip (inner_text token)) = [w] \<and> startswith w ''end'' \<longrightarrow>
      (ops_stack st = [] \<longrightarrow>
         process_token st token = Inl (TemplateSyntaxError ''Too many ends'' token)) \<and>
      (ops_stack st \<noteq> [] \<and> last (ops_stack st) \<noteq> drop 3 w \<longrightarrow>
         process_token st token = Inl (TemplateSyntaxError ''Mismatched end tag'' (drop 3 w))))
   \<and> (process_tokens (initial_state (length heap)) (tokenize text) = Inr st' \<and> ops_stack st' \<noteq> [] \<longrightarrow>
        Template text contexts heap =
          Inl (TemplateSyntaxError ''Unmatched action tag'' (last (ops_stack st'))))
   \<and> (tokenize text = pre @ tok # post \<and> process_tokens (initial_state (length heap)) pre = Inr st0
        \<and> process_token st0 tok = Inl err \<longrightarrow>
        Template text contexts heap = Inl err)
   \<and> (process_token st token = Inl (TemplateSyntaxError msg thing) \<longrightarrow>
        (msg = ''Mismatched end tag'' \<and> thing = drop 3 (hd (split_ws (strip (inner_text token))))) \<or>
        (msg = ''Don't understand tag'' \<and> thing = hd (split_ws (strip (inner_text token)))) \<or>
        (msg \<in> {''Don't understand if'', ''Don't understand for'', ''Don't understand end'',
                 ''Too many ends''} \<and> thing = token))"
proof (intro conjI impI)
  assume "classify token = Action \<and> split_ws (strip (inner_text token)) = [w] \<and> startswith w ''end''"
    and "ops_stack st = []"
  then show "process_token st token = Inl (TemplateSyntaxError ''Too many ends'' token)"
    by (simp add: end_step)
next
  assume "classify token = Action \<and> split_ws (strip (inner_text token)) = [w] \<and> startswith w ''end''"
    and "ops_stack st \<noteq> [] \<and> last (ops_stack st) \<noteq> drop 3 w"
  then show "process_token st token = Inl (TemplateSyntaxError ''Mismatched end tag'' (drop 3 w))"
    by (simp add: end_step)
next
  assume "process_tokens (initial_state (length heap)) (tokenize text) = Inr st' \<and> ops_stack st' \<noteq> []"
  then show "Template text contexts heap =
          Inl (TemplateSyntaxError ''Unmatched action tag'' (last (ops_stack st')))"
    by (simp add: unmatched Template_parse_failure)
next
  assume "tokenize text = pre @ tok # post \<and> process_tokens (initial_state (length heap)) pre = Inr st0
        \<and> process_token st0 tok = Inl err"
  then show "Template text contexts heap = Inl err"
    by (simp add: failing_token_stops Template_parse_failure)
next
  assume "process_token st token = Inl (TemplateSyntaxError msg thing)"
  from process_token_errors[OF this]
  show "(msg = ''Mismatched end tag'' \<and> thing = drop 3 (hd (split_ws (strip (inner_text token))))) \<or>
        (msg = ''Don't understand tag'' \<and> thing = hd (split_ws (strip (inner_text token)))) \<or>
        (msg \<in> {''Don't understand if'', ''Don't understand for'', ''Don't understand end'',
                 ''Too many ends''} \<and> thing = token)"
    by auto
qed

text \<open>The theorem at three templates: an \<^verbatim>\<open>endif\<close> with nothing open, an \<^verbatim>\<open>if\<close>
  closed by \<^verbatim>\<open>endfor\<close>, an \<^verbatim>\<open>if\<close> never closed.\<close>

lemma tok_endif: "tokenize ''{% endif %}'' = ['''', ''{% endif %}'', '''']"
  by (simp add: tokenize_eval)

lemma tok_if_endfor: "tokenize ''{% if c %}x{% endfor %}'' = ['''', ''{% if c %}'', ''x'', ''{% endfor %}'', '''']"
  by (simp add: tokenize_eval)

lemma tok_if: "tokenize ''{% if c %}'' = ['''', ''{% if c %}'', '''']"
  by (simp add: tokenize_eval)

lemma words_endfor: "split_ws (strip (inner_text ''{% endfor %}'')) = [''endfor'']"
  by (simp add: split_ws_def strip_def inner_text_def is_space_def)

lemma words_endif: "split_ws (strip (inner_text ''{% endif %}'')) = [''endif'']"
  by (simp add: split_ws_def strip_def inner_text_def is_space_def)

lemma expr_c: "expr_code ''c'' av = Inr (CVar ''c'', List.insert ''c'' av)"
  by (simp add: expr_code.simps variable_ok)

lemma pre_if_x:
  "\<exists>st. process_tokens (initial_state 0) ['''', ''{% if c %}'', ''x''] = Inr st \<and> ops_stack st = [''if'']"
  by (simp add: build_eval expr_c)

lemma pre_if:
  "\<exists>st. process_tokens (initial_state 0) ['''', ''{% if c %}'', ''''] = Inr st \<and> ops_stack st = [''if'']"
  by (simp add: build_eval expr_c)

theorem block_matching_errors_witness:
  "Template ''{% endif %}'' [] ([] :: pyval dict list) =
     Inl (TemplateSyntaxError ''Too many ends'' ''{% endif %}'')
   \<and> Template ''{% if c %}x{% endfor %}'' [] ([] :: pyval dict list) =
     Inl (TemplateSyntaxError ''Mismatched end tag'' ''for'')
   \<and> Template ''{% if c %}'' [] ([] :: pyval dict list) =
     Inl (TemplateSyntaxError ''Unmatched action tag'' ''if'')"
proof (intro conjI)
  let ?h = "[] :: pyval dict list"
  have a: "classify ''{% endif %}'' = Action" by (simp add: classify_def startswith_def)
  have b: "startswith ''endif'' ''end''" by (simp add: startswith_def)
  have i: "process_tokens (initial_state (length ?h)) [''''] = Inr (initial_state 0)"
    by (simp add: process_token_def classify_def startswith_def)
  have s0: "ops_stack (initial_state 0) = []" by (simp add: initial_state_def add_section_def Let_def)
  from block_matching_errors[of "''{% endif %}''" "''endif''" "initial_state 0" ?h "''{% endif %}''" _
      "[]" "['''']" "''{% endif %}''" "['''']" "initial_state 0"
      "TemplateSyntaxError ''Too many ends'' ''{% endif %}''"]
  show "Template ''{% endif %}'' [] ?h = Inl (TemplateSyntaxError ''Too many ends'' ''{% endif %}'')"
    using a b i s0 words_endif tok_endif by simp
next
  let ?h = "[] :: pyval dict list"
  obtain st where st: "process_tokens (initial_state 0) ['''', ''{% if c %}'', ''x''] = Inr st"
    and os: "ops_stack st = [''if'']" using pre_if_x by blast
  have a: "classify ''{% endfor %}'' = Action" by (simp add: classify_def startswith_def)
  have b: "startswith ''endfor'' ''end''" by (simp add: startswith_def)
  from block_matching_errors[of "''{% endfor %}''" "''endfor''" st ?h "''{% if c %}x{% endfor %}''" _
      "[]" "['''', ''{% if c %}'', ''x'']" "''{% endfor %}''" "['''']" st
      "TemplateSyntaxError ''Mismatched end tag'' ''for''"]
  show "Template ''{% if c %}x{% endfor %}'' [] ?h = Inl (TemplateSyntaxError ''Mismatched end tag'' ''for'')"
    using a b st os words_endfor tok_if_endfor by simp
next
  let ?h = "[] :: pyval dict list"
  obtain st where st: "process_tokens (initial_state 0) ['''', ''{% if c %}'', ''''] = Inr st"
    and os: "ops_stack st = [''if'']" using pre_if by blast
  from block_matching_errors[of _ _ _ ?h "''{% if c %}''" st "[]"]
  show "Template ''{% if c %}'' [] ?h = Inl (TemplateSyntaxError ''Unmatched action tag'' ''if'')"
    using st os tok_if by simp
qed

text \<open>
  Claim C3 as stated fails at the template \<^verbatim>\<open>{% if c %}x{% endfor %}\<close>: the error is
  "Mismatched end tag" with the thing \<^verbatim>\<open>for\<close>, its message is
  \<^verbatim>\<open>Mismatched end tag: 'for'\<close>, and neither the text of the offending token
  \<^verbatim>\<open>{% endfor %}\<close> nor its \<^verbatim>\<open>repr\<close> occurs in that message.
\<close>

theorem mismatched_end_message_counterexample:
  "Template ''{% if c %}x{% endfor %}'' [] ([] :: pyval dict list) =
     Inl (TemplateSyntaxError ''Mismatched end tag'' ''for'')
   \<and> message ''Mismatched end tag'' ''for'' = ''Mismatched end tag: '' @ [CHR 0x27] @ ''for'' @ [CHR 0x27]
   \<and> find_sub ''{% endfor %}'' (message ''Mismatched end tag'' ''for'') = None
   \<and> find_sub (py_repr ''{% endfor %}'') (message ''Mismatched end tag'' ''for'') = None"
proof -
  have "Template ''{% if c %}x{% endfor %}'' [] ([] :: pyval dict list) =
     Inl (TemplateSyntaxError ''Mismatched end tag'' ''for'')"
    by (simp add: build_eval tok_if_endfor expr_c del: tokenize.simps)
  moreover have m: "message ''Mismatched end tag'' ''for'' = ''Mismatched end tag: '' @ [CHR 0x27] @ ''for'' @ [CHR 0x27]"
    by (simp add: message_def py_repr_def escape_char_def Let_def)
  moreover have "find_sub ''{% endfor %}'' (message ''Mismatched end tag'' ''for'') = None"
    unfolding m by (simp add: startswith_def)
  moreover have "find_sub (py_repr ''{% endfor %}'') (message ''Mismatched end tag'' ''for'') = None"
    unfolding m by (simp add: startswith_def py_repr_def escape_char_def Let_def)
  ultimately show ?thesis by blast
qed

text \<open>
  Claim C9, as amended. For every template in which the tokens before an action tag are
  processed without error and the inner text of that tag is empty or all whitespace,
  \<^verbatim>\<open>words[0]\<close> raises \<^verbatim>\<open>IndexError\<close> at that tag, and the construction of the
  \<^verbatim>\<open>Template\<close> fails with that \<^verbatim>\<open>IndexError\<close>, not with a \<^verbatim>\<open>TemplateSyntaxError\<close>.
\<close>

theorem empty_action_tag_IndexError:
  assumes "tokenize text = pre @ token # post"
    and "process_tokens (initial_state (length heap)) pre = Inr st"
    and "classify token = Action"
    and "list_all is_space (inner_text token)"
  shows "process_token st token = Inl (Raised IndexError)
         \<and> Template text contexts heap = Inl (Raised IndexError)"
proof -
  from assms(4) have "split_ws (strip (inner_text token)) = []"
    by (simp add: strip_spaces split_ws_def)
  with assms(3) have f: "process_token st token = Inl (Raised IndexError)"
    by (simp add: process_token_def)
  with assms(1,2) have "parse_template (length heap) text = Inl (Raised IndexError)"
    by (rule failing_token_stops)
  with f show ?thesis by (simp add: Template_parse_failure)
qed

text \<open>The theorem at the template \<^verbatim>\<open>a{% %}b\<close>.\<close>

lemma tok_a_empty_b: "tokenize ''a{% %}b'' = [''a'', ''{% %}'', ''b'']"
  by (simp add: tokenize_eval)

theorem empty_action_tag_IndexError_witness:
  "tokenize ''a{% %}b'' = [''a''] @ ''{% %}'' # [''b'']
   \<and> (\<exists>st. process_tokens (initial_state 0) [''a''] = Inr st)
   \<and> classify ''{% %}'' = Action
   \<and> list_all is_space (inner_text ''{% %}'')
   \<and> Template ''a{% %}b'' [] ([] :: pyval dict list) = Inl (Raised IndexError)"
proof -
  let ?h = "[] :: pyval dict list"
  have t: "tokenize ''a{% %}b'' = [''a''] @ ''{% %}'' # [''b'']" unfolding tok_a_empty_b by simp
  obtain st where st: "process_tokens (initial_state (length ?h)) [''a''] = Inr st"
    by (simp add: process_token_def classify_def startswith_def)
  have c: "classify ''{% %}'' = Action" by (simp add: classify_def startswith_def)
  have w: "list_all is_space (inner_text ''{% %}'')" by (simp add: inner_text_def is_space_def)
  from empty_action_tag_IndexError[OF t st c w, of "[]"] t st c w show ?thesis
    by auto
qed

text \<open>
  Claim C9 as stated fails at the template \<^verbatim>\<open>{% x %}{% %}\<close>: it contains the action
  tag \<^verbatim>\<open>{% %}\<close>, and its construction fails with the \<^verbatim>\<open>TemplateSyntaxError\<close> of the
  tag before it.
\<close>

lemma tok_x_empty: "tokenize ''{% x %}{% %}'' = ['''', ''{% x %}'', '''', ''{% %}'', '''']"
  by (simp add: tokenize_eval)

theorem empty_action_tag_counterexample:
  "''{% %}'' \<in> set (tokenize ''{% x %}{% %}'')
   \<and> classify ''{% %}'' = Action
   \<and> list_all is_space (inner_text ''{% %}'')
   \<and> Template ''{% x %}{% %}'' [] ([] :: pyval dict list) =
       Inl (TemplateSyntaxError ''Don't understand tag'' ''x'')"
  by (simp add: build_eval tok_x_empty del: tokenize.simps)

section \<open>Templates without tags\<close>

lemma find_sub_None_Cons:
  "find_sub pat (c # cs) = None \<Longrightarrow> \<not> startswith (c # cs) pat \<and> find_sub pat cs = None"
  by (auto split: if_splits option.splits)

lemma not_occurs_not_startswith:
  "\<not> occurs pat s \<Longrightarrow> pat \<noteq> [] \<Longrightarrow> \<not> startswith s pat"
  by (cases s) (auto simp: occurs_def startswith_def split: if_splits)

lemma not_occurs_tl: "\<not> occurs pat (c # cs) \<Longrightarrow> \<not> occurs pat cs"
  by (auto simp: occurs_def split: if_splits option.splits)

lemma no_opener_no_tag:
  assumes "\<not> occurs ''{{'' s" "\<not> occurs ''{%'' s" "\<not> occurs ''{#'' s"
  shows "match_tag s = None"
  using assms not_occurs_not_startswith[of "''{{''" s] not_occurs_not_startswith[of "''{%''" s]
    not_occurs_not_startswith[of "''{#''" s]
  by (simp add: match_tag_def match_alt_def)

lemma no_opener_tokenize:
  "\<not> occurs ''{{'' s \<Longrightarrow> \<not> occurs ''{%'' s \<Longrightarrow> \<not> occurs ''{#'' s \<Longrightarrow> tokenize s = [s]"
proof (induction s)
  case Nil
  show ?case by simp
next
  case (Cons c cs)
  from Cons.prems have "match_tag (c # cs) = None" by (rule no_opener_no_tag)
  moreover from Cons have "tokenize cs = [cs]" by (auto dest: not_occurs_tl)
  ultimately show ?case by simp
qed

lemma no_opener_Literal:
  assumes "\<not> occurs ''{{'' s" "\<not> occurs ''{%'' s" "\<not> occurs ''{#'' s"
  shows "classify s = Literal"
  using assms not_occurs_not_startswith[of "''{{''" s] not_occurs_not_startswith[of "''{%''" s]
    not_occurs_not_startswith[of "''{#''" s]
  by (simp add: classify_def)

lemmas run_eval = render_def render_context_def call_function_def exec_line_def

lemma literal_body:
  assumes "classify text = Literal"
  shows "\<exists>st. process_tokens (initial_state a) [text] = Inr st \<and>
           (case finish st of Inl e \<Rightarrow> False | Inr st' \<Rightarrow>
              all_vars st' = [] \<and> loop_vars st' = [] \<and>
              get_globals (builder st') (vars_code st') =
                Inr ([Simple InitResult, Simple InitAppend, Simple InitExtend, Simple InitToStr] @
                     (if text = [] then [] else [Simple (AppendResult (StrLit text))]) @
                     [Simple ReturnJoin]))"
  using assms
  by (simp add: process_token_def initial_state_def add_section_def add_line_def indent_def
      dedent_def new_codebuilder_def INDENT_STEP_def flush_output_def finish_def get_globals_def
      source_lines_def plain_name_def is_header_def compound_def deeper_def Let_def)

text \<open>
  Claim C8. For every template text in which none of the delimiter sequences
  \<^verbatim>\<open>{{\<close>, \<^verbatim>\<open>{%\<close>, \<^verbatim>\<open>{#\<close> occurs, the construction succeeds, whatever default contexts
  are given, and \<^verbatim>\<open>render\<close> returns exactly the template text, for every host, every
  context argument and every heap.
\<close>

theorem literal_template_identity:
  assumes "\<not> occurs ''{{'' text" and "\<not> occurs ''{%'' text" and "\<not> occurs ''{#'' text"
  shows "\<exists>t heap'. Template text contexts heap = Inr (t, heap') \<and>
           (\<forall>H ctx h. fst (render H t ctx h) = Inr (RStr text))"
proof -
  from assms have tk: "tokenize text = [text]" by (rule no_opener_tokenize)
  from assms have lit: "classify text = Literal" by (rule no_opener_Literal)
  from literal_body[OF lit, of "length heap"] obtain st st' where
    st: "process_tokens (initial_state (length heap)) [text] = Inr st"
    and fin: "finish st = Inr st'"
    and body: "get_globals (builder st') (vars_code st') =
                Inr ([Simple InitResult, Simple InitAppend, Simple InitExtend, Simple InitToStr] @
                     (if text = [] then [] else [Simple (AppendResult (StrLit text))]) @
                     [Simple ReturnJoin])"
    by (auto split: sum.splits)
  let ?body = "[Simple InitResult, Simple InitAppend, Simple InitExtend, Simple InitToStr] @
                     (if text = [] then [] else [Simple (AppendResult (StrLit text))]) @
                     [Simple ReturnJoin]"
  have T: "Template text contexts heap =
             Inr (\<lparr>self_context = length heap, all_vars = all_vars st', loop_vars = loop_vars st',
                   render_function = ?body\<rparr>,
                  fold (dict_update (length heap)) contexts (heap @ [Map.empty]))"
    unfolding Template_def parse_template_def tk using st fin body by (simp add: Let_def)
  have "\<And>H ctx h. fst (render H \<lparr>self_context = length heap, all_vars = all_vars st',
          loop_vars = loop_vars st', render_function = ?body\<rparr> ctx h) = Inr (RStr text)"
    by (simp add: run_eval Let_def)
  with T show ?thesis by blast
qed

text \<open>The theorem at the template \<^verbatim>\<open>yolo\<close> of the test suite.\<close>

theorem literal_template_identity_witness:
  "\<not> occurs ''{{'' ''yolo'' \<and> \<not> occurs ''{%'' ''yolo'' \<and> \<not> occurs ''{#'' ''yolo''
   \<and> (\<exists>t heap'. Template ''yolo'' [] ([] :: pyval dict list) = Inr (t, heap') \<and>
           (\<forall>H ctx h. fst (render H t ctx (h :: pyval dict list)) = Inr (RStr ''yolo'')))"
proof -
  have a: "\<not> occurs ''{{'' ''yolo''" and b: "\<not> occurs ''{%'' ''yolo''" and c: "\<not> occurs ''{#'' ''yolo''"
    by (simp_all add: occurs_def startswith_def)
  from literal_template_identity[OF a b c, of "[]" "[] :: pyval dict list"] a b c
  show ?thesis by simp
qed

section \<open>Dotted access\<close>

lemma spec_steps_Inl: "foldl (spec_step H) (Inl e) path = Inl e"
  by (induction path) (simp_all add: spec_step_def)

lemma dots_loop_refines: "dots_loop H v path = spec_resolve H v path"
proof (induction path arbitrary: v)
  case Nil
  show ?case by (simp add: spec_resolve_def)
next
  case (Cons name path)
  show ?case
  proof (cases "spec_lookup H v name")
    case (Inl e)
    then show ?thesis
      by (auto simp: spec_resolve_def spec_step_def spec_lookup_def spec_steps_Inl
          split: sum.splits if_splits)
  next
    case (Inr x)
    show ?thesis
    proof (cases "spec_invoke H x")
      case (Inl e)
      with Inr show ?thesis
        by (auto simp: spec_resolve_def spec_step_def spec_lookup_def spec_invoke_def
            spec_steps_Inl split: sum.splits if_splits)
    next
      case r: (Inr y)
      have "dots_loop H v (name # path) = dots_loop H y path"
        using Inr r
        by (auto simp: spec_lookup_def spec_invoke_def split: sum.splits if_splits)
      also have "\<dots> = spec_resolve H y path" by (rule Cons.IH)
      also have "\<dots> = spec_resolve H v (name # path)"
        using Inr r by (simp add: spec_resolve_def spec_step_def)
      finally show ?thesis .
    qed
  qed
qed

lemma split_on_hd_no_sep: "sep \<notin> set (hd (split_on sep s))"
  by (induction s) (auto split: list.splits)

lemma split_on_hd_subset: "set (hd (split_on sep s)) \<subseteq> set s"
  by (induction s) (auto split: list.splits)

lemma expr_code_bare:
  "CHR ''|'' \<notin> set expr \<Longrightarrow> CHR ''.'' \<notin> set expr \<Longrightarrow>
   expr_code expr av = Inr (CVar expr, List.insert expr av)"
  by (subst expr_code.simps) (simp add: variable_ok)

lemma expr_code_dotted:
  assumes "CHR ''.'' \<in> set expr" and "CHR ''|'' \<notin> set expr"
  shows "expr_code expr av =
           Inr (CDoDots (CVar (hd (split_on CHR ''.'' expr))) (tl (split_on CHR ''.'' expr)),
                List.insert (hd (split_on CHR ''.'' expr)) av)"
proof -
  let ?b = "hd (split_on CHR ''.'' expr)"
  have nd: "CHR ''.'' \<notin> set ?b" by (rule split_on_hd_no_sep)
  have np: "CHR ''|'' \<notin> set ?b" using assms(2) split_on_hd_subset[of "CHR ''.''" expr] by auto
  have "expr_code ?b av = Inr (CVar ?b, List.insert ?b av)"
    using np nd by (rule expr_code_bare)
  with assms show ?thesis by (subst expr_code.simps) simp
qed

text \<open>
  Claim C1. For every dotted-access expression: \<^verbatim>\<open>_expr_code\<close> compiles it to
  \<^verbatim>\<open>do_dots\<close> applied to the base variable and the remaining names; at render time the
  base is evaluated and the loop of \<^verbatim>\<open>_do_dots\<close> resolves the path exactly as the
  specification says: each successive name against the current value, by key lookup
  first, by attribute lookup when the key lookup fails with a lookup error, and with a
  call without arguments when the value found is callable, the value returned being
  the current value for the next name; when this resolution succeeds, its value is the
  value of the dotted access.
\<close>

theorem dotted_access_resolution:
  "dots_loop H v path = spec_resolve H v path
   \<and> (spec_resolve H v path = Inr r \<longrightarrow> do_dots H v path = Inr r)
   \<and> spec_resolve H v (path @ [name]) =
       (case spec_resolve H v path of
          Inl e \<Rightarrow> Inl e
        | Inr cur \<Rightarrow>
           (case (case getitem H cur name of
                    Inr x \<Rightarrow> Inr x
                  | Inl e \<Rightarrow> if lookup_failure e then getattr H cur name else Inl e) of
              Inl e \<Rightarrow> Inl e
            | Inr x \<Rightarrow> if callable H x then call H x [] else Inr x))
   \<and> eval H env (CDoDots e path) =
       (case eval H env e of Inl x \<Rightarrow> Inl x | Inr b \<Rightarrow> do_dots H b path)
   \<and> (CHR ''.'' \<in> set expr \<and> CHR ''|'' \<notin> set expr \<longrightarrow>
        expr_code expr av =
          Inr (CDoDots (CVar (hd (split_on CHR ''.'' expr))) (tl (split_on CHR ''.'' expr)),
               List.insert (hd (split_on CHR ''.'' expr)) av))"
proof (intro conjI impI)
  show "dots_loop H v path = spec_resolve H v path" by (rule dots_loop_refines)
next
  assume "spec_resolve H v path = Inr r"
  then show "do_dots H v path = Inr r" by (simp add: do_dots_def dots_loop_refines)
next
  show "spec_resolve H v (path @ [name]) =
       (case spec_resolve H v path of
          Inl e \<Rightarrow> Inl e
        | Inr cur \<Rightarrow>
           (case (case getitem H cur name of
                    Inr x \<Rightarrow> Inr x
                  | Inl e \<Rightarrow> if lookup_failure e then getattr H cur name else Inl e) of
              Inl e \<Rightarrow> Inl e
            | Inr x \<Rightarrow> if callable H x then call H x [] else Inr x))"
    by (simp add: spec_resolve_def spec_step_def spec_lookup_def spec_invoke_def
        split: sum.splits)
next
  show "eval H env (CDoDots e path) =
       (case eval H env e of Inl x \<Rightarrow> Inl x | Inr b \<Rightarrow> do_dots H b path)"
    by simp
next
  assume "CHR ''.'' \<in> set expr \<and> CHR ''|'' \<notin> set expr"
  then show "expr_code expr av =
          Inr (CDoDots (CVar (hd (split_on CHR ''.'' expr))) (tl (split_on CHR ''.'' expr)),
               List.insert (hd (split_on CHR ''.'' expr)) av)"
    by (simp add: expr_code_dotted)
qed

text \<open>Unfolding rules for the example host.\<close>

lemmas py_eval = py_def py_getitem_def py_getattr_def py_callable_def py_call_def py_truth_def
  py_iter_def py_to_str_def py_percent_s_def upper_char_def

text \<open>The theorem at \<^verbatim>\<open>obj.return_stuff.cond\<close> of the test \<^verbatim>\<open>test_complex_if\<close>.\<close>

theorem dotted_access_resolution_witness:
  "spec_resolve py ex_obj [''return_stuff'', ''cond''] = Inr (PStr ''affirmative'')
   \<and> do_dots py ex_obj [''return_stuff'', ''cond''] = Inr (PStr ''affirmative'')
   \<and> CHR ''.'' \<in> set ''obj.return_stuff.cond'' \<and> CHR ''|'' \<notin> set ''obj.return_stuff.cond''
   \<and> expr_code ''obj.return_stuff.cond'' [] =
        Inr (CDoDots (CVar ''obj'') [''return_stuff'', ''cond''], [''obj''])"
proof -
  have r: "spec_resolve py ex_obj [''return_stuff'', ''cond''] = Inr (PStr ''affirmative'')"
    by (simp add: spec_resolve_def spec_step_def spec_lookup_def spec_invoke_def ex_obj_def
        lookup_failure_def py_eval)
  have d: "CHR ''.'' \<in> set ''obj.return_stuff.cond'' \<and> CHR ''|'' \<notin> set ''obj.return_stuff.cond''"
    by simp
  have s: "split_on CHR ''.'' ''obj.return_stuff.cond'' = [''obj'', ''return_stuff'', ''cond'']"
    by simp
  note T = dotted_access_resolution[of py ex_obj "[''return_stuff'', ''cond'']"
      "PStr ''affirmative''" "''cond''" Map.empty "CVar ''obj''" "''obj.return_stuff.cond''" "[]"]
  have dd: "do_dots py ex_obj [''return_stuff'', ''cond''] = Inr (PStr ''affirmative'')"
    by (rule mp[OF T[THEN conjunct2, THEN conjunct1] r])
  have "expr_code ''obj.return_stuff.cond'' [] =
          Inr (CDoDots (CVar (hd (split_on CHR ''.'' ''obj.return_stuff.cond'')))
                 (tl (split_on CHR ''.'' ''obj.return_stuff.cond'')),
               List.insert (hd (split_on CHR ''.'' ''obj.return_stuff.cond'')) [])"
    by (rule mp[OF T[THEN conjunct2, THEN conjunct2, THEN conjunct2, THEN conjunct2] d])
  then have ec: "expr_code ''obj.return_stuff.cond'' [] =
        Inr (CDoDots (CVar ''obj'') [''return_stuff'', ''cond''], [''obj''])"
    unfolding s by simp
  show ?thesis by (intro conjI r dd ec d[THEN conjunct1] d[THEN conjunct2])
qed

section \<open>The shape of the generated function\<close>

lemma inv_initial: "builder_inv (initial_state a)"
  by (simp add: builder_inv_def initial_state_def add_section_def add_line_def indent_def
      new_codebuilder_def INDENT_STEP_def body_item_def)

lemma inv_add_line:
  assumes "builder_inv st"
  shows "builder_inv (st\<lparr>builder := add_line l (builder st)\<rparr>)"
  using assms by (auto simp: builder_inv_def add_line_def body_item_def)

lemma inv_buffered: "builder_inv (st\<lparr>buffered := b\<rparr>) = builder_inv st"
  by (simp add: builder_inv_def)

lemma inv_all_vars: "builder_inv (st\<lparr>all_vars := b\<rparr>) = builder_inv st"
  by (simp add: builder_inv_def)

lemma inv_loop_vars: "builder_inv (st\<lparr>loop_vars := b\<rparr>) = builder_inv st"
  by (simp add: builder_inv_def)

lemma inv_flush: "builder_inv st \<Longrightarrow> builder_inv (flush_output st)"
  by (auto simp: flush_output_def builder_inv_def add_line_def body_item_def)

lemma inv_open:
  assumes "builder_inv st"
  shows "builder_inv (st\<lparr>ops_stack := ops_stack st @ [k],
                          builder := indent (add_line l (builder st))\<rparr>)"
  using assms by (auto simp: builder_inv_def add_line_def indent_def INDENT_STEP_def body_item_def)

lemma inv_close:
  assumes "builder_inv st" and "ops_stack st \<noteq> []"
  shows "builder_inv (st\<lparr>ops_stack := butlast (ops_stack st), builder := dedent (builder st)\<rparr>)"
proof -
  from assms(2) have "int (length (butlast (ops_stack st))) = int (length (ops_stack st)) - 1"
    by (cases "ops_stack st" rule: rev_cases) auto
  with assms(1) show ?thesis
    by (auto simp: builder_inv_def dedent_def INDENT_STEP_def)
qed

lemma inv_do_if: "builder_inv st \<Longrightarrow> do_if st token ws = Inr st' \<Longrightarrow> builder_inv st'"
  by (auto simp: do_if_def syntax_error_def builder_inv_def add_line_def indent_def
      INDENT_STEP_def body_item_def split: if_splits sum.splits)

lemma inv_do_for: "builder_inv st \<Longrightarrow> do_for st token ws = Inr st' \<Longrightarrow> builder_inv st'"
  by (auto simp: do_for_def syntax_error_def builder_inv_def add_line_def indent_def
      INDENT_STEP_def body_item_def split: if_splits sum.splits)

lemma inv_do_end: "builder_inv st \<Longrightarrow> do_end st token ws = Inr st' \<Longrightarrow> builder_inv st'"
  using inv_close[of st]
  by (auto simp: do_end_def syntax_error_def Let_def split: if_splits)

lemma inv_step:
  assumes "builder_inv st" and "process_token st token = Inr st'"
  shows "builder_inv st'"
proof (cases "classify token")
  case Comment
  with assms show ?thesis by (simp add: process_token_def)
next
  case Output
  with assms show ?thesis
    by (auto simp: process_token_def builder_inv_def split: sum.splits)
next
  case Literal
  with assms show ?thesis
    by (auto simp: process_token_def builder_inv_def split: if_splits)
next
  case Action
  define ws where "ws = split_ws (strip (inner_text token))"
  from assms(1) have f: "builder_inv (flush_output st)" by (rule inv_flush)
  from assms(2) Action
  consider "do_if (flush_output st) token ws = Inr st'"
    | "do_for (flush_output st) token ws = Inr st'"
    | "do_end (flush_output st) token ws = Inr st'"
    unfolding process_token_def ws_def[symmetric]
    by (simp add: Let_def syntax_error_def split: if_splits)
  then show ?thesis
    using f by cases (auto dest: inv_do_if inv_do_for inv_do_end)
qed

lemma inv_tokens:
  "builder_inv st \<Longrightarrow> process_tokens st tokens = Inr st' \<Longrightarrow> builder_inv st'"
  by (induction tokens arbitrary: st) (auto split: sum.splits dest: inv_step)

lemma lines_inv_initial: "lines_inv (initial_state a)"
  by (auto simp: lines_inv_def initial_state_def add_section_def add_line_def indent_def
      new_codebuilder_def is_load_def)

lemma lines_inv_flush: "lines_inv st \<Longrightarrow> lines_inv (flush_output st)"
  by (auto simp: lines_inv_def flush_output_def add_line_def is_load_def)

lemma lines_inv_do_if: "lines_inv st \<Longrightarrow> do_if st token ws = Inr st' \<Longrightarrow> lines_inv st'"
  by (auto simp: do_if_def syntax_error_def lines_inv_def add_line_def indent_def is_load_def
      split: if_splits sum.splits)

lemma lines_inv_do_for: "lines_inv st \<Longrightarrow> do_for st token ws = Inr st' \<Longrightarrow> lines_inv st'"
  by (auto simp: do_for_def syntax_error_def lines_inv_def add_line_def indent_def is_load_def
      variable_ok split: if_splits sum.splits)

lemma lines_inv_do_end: "lines_inv st \<Longrightarrow> do_end st token ws = Inr st' \<Longrightarrow> lines_inv st'"
  by (auto simp: do_end_def syntax_error_def lines_inv_def dedent_def Let_def split: if_splits)

lemma lines_inv_step:
  assumes "lines_inv st" and "process_token st token = Inr st'"
  shows "lines_inv st'"
proof (cases "classify token")
  case Comment
  with assms show ?thesis by (simp add: process_token_def)
next
  case Output
  with assms show ?thesis
    by (auto simp: process_token_def lines_inv_def split: sum.splits)
next
  case Literal
  with assms show ?thesis
    by (auto simp: process_token_def lines_inv_def split: if_splits)
next
  case Action
  define ws where "ws = split_ws (strip (inner_text token))"
  from assms(1) have f: "lines_inv (flush_output st)" by (rule lines_inv_flush)
  from assms(2) Action
  consider "do_if (flush_output st) token ws = Inr st'"
    | "do_for (flush_output st) token ws = Inr st'"
    | "do_end (flush_output st) token ws = Inr st'"
    unfolding process_token_def ws_def[symmetric]
    by (simp add: Let_def syntax_error_def split: if_splits)
  then show ?thesis
    using f by cases (auto dest: lines_inv_do_if lines_inv_do_for lines_inv_do_end)
qed

lemma lines_inv_tokens:
  "lines_inv st \<Longrightarrow> process_tokens st tokens = Inr st' \<Longrightarrow> lines_inv st'"
  by (induction tokens arbitrary: st) (auto split: sum.splits dest: lines_inv_step)

lemma fold_add_line:
  "fold (\<lambda>v. add_line (f v)) names cb =
     cb\<lparr>code := code cb @ map (\<lambda>v. Ln (indent_level cb) (f v)) names\<rparr>"
  by (induction names arbitrary: cb) (simp_all add: add_line_def)

lemma flush_vars [simp]:
  "all_vars (flush_output st) = all_vars st" "loop_vars (flush_output st) = loop_vars st"
  by (simp_all add: flush_output_def)

lemma item_lines_body:
  "list_all body_item ls \<Longrightarrow>
   list_all (\<lambda>p. 4 \<le> fst p) (concat (map (item_lines sect) ls))"
  by (induction ls) (auto simp: body_item_def split: item.splits)

lemma item_lines_origin:
  "list_all body_item ls \<Longrightarrow>
   \<forall>p\<in>set (concat (map (item_lines sect) ls)). Ln (fst p) (snd p) \<in> set ls"
  by (induction ls) (auto simp: body_item_def split: item.splits)

lemma finish_body:
  assumes "builder_inv st" and "lines_inv st" and "finish st = Inr st'"
  shows "\<exists>rest. source_lines (builder st') (vars_code st') =
            (0, DefRender) # map (\<lambda>v. (4, LoadVar v)) (context_names st) @ (4, InitResult) # rest
          \<and> list_all (\<lambda>p. 4 \<le> fst p) rest
          \<and> (\<forall>p\<in>set rest. \<not> is_load (snd p) \<and>
                (\<forall>v e. snd p = ForHead v e \<longrightarrow> v \<in> set (loop_vars st)))
          \<and> all_vars st' = all_vars st \<and> loop_vars st' = loop_vars st"
proof -
  from assms(3) have e: "ops_stack st = []"
    by (auto simp: finish_def syntax_error_def split: if_splits)
  from assms(1) have "builder_inv (flush_output st)" by (rule inv_flush)
  then obtain ls where c: "code (builder (flush_output st)) = Ln 0 DefRender # Section # Ln 4 InitResult # ls"
    and b: "list_all body_item ls"
    and i: "indent_level (builder (flush_output st)) = 4"
    and v: "vars_code (flush_output st) = new_codebuilder 4"
    using e by (auto simp: builder_inv_def)
  from assms(2) have "lines_inv (flush_output st)" by (rule lines_inv_flush)
  with c have li: "\<forall>i l. Ln i l \<in> set ls \<longrightarrow>
      \<not> is_load l \<and> (\<forall>v e. l = ForHead v e \<longrightarrow> v \<in> set (loop_vars st))"
    by (simp add: lines_inv_def)
  from assms(3) e have st': "st' = (flush_output st)
       \<lparr>vars_code := fold (\<lambda>v. add_line (LoadVar v)) (context_names st) (vars_code (flush_output st)),
        builder := dedent (add_line ReturnJoin (builder (flush_output st)))\<rparr>"
    by (simp add: finish_def Let_def context_names_def)
  let ?sect = "map (\<lambda>v. (4, LoadVar v)) (context_names st)"
  let ?rest = "concat (map (item_lines ?sect) (ls @ [Ln 4 ReturnJoin]))"
  have b': "list_all body_item (ls @ [Ln 4 ReturnJoin])" using b by (simp add: body_item_def)
  have 1: "source_lines (builder st') (vars_code st') =
            (0, DefRender) # ?sect @ (4, InitResult) # ?rest"
    unfolding st' source_lines_def
    by (simp add: c i v fold_add_line dedent_def add_line_def new_codebuilder_def
        map_concat comp_def concat_map_singleton)
  have 2: "list_all (\<lambda>p. 4 \<le> fst p) ?rest"
    using b' by (rule item_lines_body)
  have 3: "\<forall>p\<in>set ?rest. \<not> is_load (snd p) \<and>
                (\<forall>v e. snd p = ForHead v e \<longrightarrow> v \<in> set (loop_vars st))"
  proof
    fix p assume "p \<in> set ?rest"
    with item_lines_origin[OF b', of ?sect]
    have "Ln (fst p) (snd p) \<in> set (ls @ [Ln 4 ReturnJoin])" by blast
    then consider "Ln (fst p) (snd p) \<in> set ls" | "snd p = ReturnJoin" by auto
    then show "\<not> is_load (snd p) \<and> (\<forall>v e. snd p = ForHead v e \<longrightarrow> v \<in> set (loop_vars st))"
    proof cases
      case 1
      with li show ?thesis by blast
    next
      case 2
      then show ?thesis by (simp add: is_load_def)
    qed
  qed
  have 4: "all_vars st' = all_vars st \<and> loop_vars st' = loop_vars st"
    unfolding st' by simp
  from 1 2 3 4 show ?thesis by blast
qed

lemma takeWhile_all: "list_all P xs \<Longrightarrow> takeWhile P xs = xs"
  by (induction xs) auto

lemma dropWhile_all: "list_all P xs \<Longrightarrow> dropWhile P xs = []"
  by (induction xs) auto

lemma parse_simple_prefix:
  "list_all (\<lambda>l. \<not> is_header l) ls \<Longrightarrow>
   parse_block lvl (map (\<lambda>l. (lvl, l)) ls @ rest) =
     (case parse_block lvl rest of Inl e \<Rightarrow> Inl e | Inr ss \<Rightarrow> Inr (map Simple ls @ ss))"
  by (induction ls) (auto split: sum.splits)

lemma parse_def_block:
  assumes "list_all (deeper 0) L" and "L \<noteq> []"
  shows "parse_block 0 ((0, DefRender) # L) =
           (case parse_block (fst (hd L)) L of Inl e \<Rightarrow> Inl e | Inr b \<Rightarrow> Inr [SDef b])"
  using assms
  by (simp add: takeWhile_all dropWhile_all is_header_def compound_def split: sum.splits)

lemma block_lines_append: "block_lines (a @ b) = block_lines a @ block_lines b"
  by (induction a) simp_all

lemma compound_lines: "is_header l \<Longrightarrow> stmt_lines (compound l body) = l # block_lines body"
  by (cases l) (simp_all add: compound_def is_header_def)

lemma parse_block_lines:
  "parse_block lvl ls = Inr ss \<Longrightarrow> block_lines ss = map snd ls"
proof (induction lvl ls arbitrary: ss rule: parse_block.induct)
  case (1 lvl)
  then show ?case by simp
next
  case (2 lvl i l rest)
  from "2.prems" have i: "i = lvl" by (auto split: if_splits)
  show ?case
  proof (cases "is_header l")
    case True
    let ?b = "takeWhile (deeper lvl) rest" and ?a = "dropWhile (deeper lvl) rest"
    from "2.prems" i True have ne: "?b \<noteq> []" by (auto split: if_splits)
    from "2.prems" i True ne obtain body after where
      b: "parse_block (fst (hd ?b)) ?b = Inr body"
      and a: "parse_block lvl ?a = Inr after"
      and ss: "ss = compound l body # after"
      by (auto split: sum.splits)
    have i': "\<not> i \<noteq> lvl" using i by simp
    from "2.IH"(1)[OF i' True ne b] have 1: "block_lines body = map snd ?b" .
    from "2.IH"(2)[OF i' True ne b a] have 2: "block_lines after = map snd ?a" .
    have "map snd ?b @ map snd ?a = map snd rest"
      by (metis map_append takeWhile_dropWhile_id)
    with 1 2 ss True show ?thesis by (simp add: compound_lines)
  next
    case False
    from "2.prems" i False obtain after where
      a: "parse_block lvl rest = Inr after" and ss: "ss = Simple l # after"
      by (auto split: sum.splits)
    have i': "\<not> i \<noteq> lvl" using i by simp
    from "2.IH"(3)[OF i' False a] ss show ?thesis by simp
  qed
qed

lemma get_globals_body:
  assumes sl: "source_lines cb sect =
            (0, DefRender) # map (\<lambda>v. (4, LoadVar v)) names @ (4, InitResult) # rest"
    and deep: "list_all (\<lambda>p. 4 \<le> fst p) rest"
    and gg: "get_globals cb sect = Inr body"
  shows "\<exists>ss. body = map (Simple \<circ> LoadVar) names @ ss \<and>
              block_lines ss = InitResult # map snd rest"
proof -
  let ?L = "map (\<lambda>v. (4, LoadVar v)) names @ (4, InitResult) # rest"
  from deep have "list_all (deeper 0) rest"
    by (auto simp: list_all_iff deeper_def)
  then have d: "list_all (deeper 0) ?L"
    by (auto simp: list_all_iff deeper_def)
  have ne: "?L \<noteq> []" by simp
  have h: "fst (hd ?L) = 4" by (cases names) auto
  from gg sl have p: "parse_block 0 ((0, DefRender) # ?L) = Inr [SDef body]"
    by (auto simp: get_globals_def Let_def split: if_splits list.splits sum.splits stmt.splits)
  from p have p4: "parse_block 4 ?L = Inr body"
    unfolding parse_def_block[OF d ne] h by (auto split: sum.splits)
  have eq: "?L = map (\<lambda>l. (4, l)) (map LoadVar names) @ (4, InitResult) # rest"
    by simp
  have nh: "list_all (\<lambda>l. \<not> is_header l) (map LoadVar names)"
    by (simp add: list_all_iff is_header_def)
  have "parse_block 4 ?L =
     (case parse_block 4 ((4, InitResult) # rest) of Inl e \<Rightarrow> Inl e
      | Inr ss \<Rightarrow> Inr (map Simple (map LoadVar names) @ ss))"
    unfolding eq by (rule parse_simple_prefix[OF nh])
  with p4 obtain ss where ss: "parse_block 4 ((4, InitResult) # rest) = Inr ss"
    and body: "body = map (Simple \<circ> LoadVar) names @ ss"
    by (auto split: sum.splits)
  from parse_block_lines[OF ss] have "block_lines ss = InitResult # map snd rest" by simp
  with body show ?thesis by blast
qed

lemma Template_body:
  assumes "Template text contexts heap = Inr (t, heap')"
  shows "\<exists>ss. render_function t = map (Simple \<circ> LoadVar) (context_names t) @ ss \<and>
              list_all (\<lambda>l. \<not> is_load l) (block_lines ss) \<and>
              (\<forall>v e. ForHead v e \<in> set (block_lines ss) \<longrightarrow> v \<in> set (loop_vars t))"
proof -
  from assms obtain st st' body where
    pt: "process_tokens (initial_state (length heap)) (tokenize text) = Inr st"
    and fin: "finish st = Inr st'"
    and gg: "get_globals (builder st') (vars_code st') = Inr body"
    and t: "t = \<lparr>self_context = length heap, all_vars = all_vars st', loop_vars = loop_vars st',
                 render_function = body\<rparr>"
    by (auto simp: Template_def parse_template_def Let_def split: sum.splits)
  from inv_tokens[OF inv_initial pt] have bi: "builder_inv st" .
  from lines_inv_tokens[OF lines_inv_initial pt] have li: "lines_inv st" .
  from finish_body[OF bi li fin] obtain rest where
    sl: "source_lines (builder st') (vars_code st') =
            (0, DefRender) # map (\<lambda>v. (4, LoadVar v)) (context_names st) @ (4, InitResult) # rest"
    and deep: "list_all (\<lambda>p. 4 \<le> fst p) rest"
    and r: "\<forall>p\<in>set rest. \<not> is_load (snd p) \<and>
                (\<forall>v e. snd p = ForHead v e \<longrightarrow> v \<in> set (loop_vars st))"
    and v: "all_vars st' = all_vars st" "loop_vars st' = loop_vars st"
    by blast
  from get_globals_body[OF sl deep gg] obtain ss where
    body: "body = map (Simple \<circ> LoadVar) (context_names st) @ ss"
    and bl: "block_lines ss = InitResult # map snd rest" by blast
  have cn: "context_names t = context_names st"
    by (simp add: context_names_def t v)
  have 1: "render_function t = map (Simple \<circ> LoadVar) (context_names t) @ ss"
    unfolding cn by (simp add: t body)
  have 2: "list_all (\<lambda>l. \<not> is_load l) (block_lines ss)"
    using r by (auto simp: bl list_all_iff is_load_def)
  have 3: "\<forall>v e. ForHead v e \<in> set (block_lines ss) \<longrightarrow> v \<in> set (loop_vars t)"
    using r by (auto simp: bl t v)
  from 1 2 3 show ?thesis by blast
qed

lemma Template_loads:
  assumes "Template text contexts heap = Inr (t, heap')"
  shows "\<exists>ss. render_function t = map (Simple \<circ> LoadVar) (context_names t) @ ss"
  using Template_body[OF assms] by blast

lemma exec_loads_missing:
  "\<exists>n\<in>set ns. ctx n = None \<Longrightarrow>
   \<exists>m\<in>set ns. ctx m = None \<and>
     exec_block H ctx (map (Simple \<circ> LoadVar) ns @ ss) fr = Inl (KeyError m)"
proof (induction ns arbitrary: fr)
  case Nil
  then show ?case by simp
next
  case (Cons n ns)
  show ?case
  proof (cases "ctx n")
    case None
    then show ?thesis by (auto simp: exec_line_def)
  next
    case (Some x)
    with Cons.prems have "\<exists>n\<in>set ns. ctx n = None" by auto
    from Cons.IH[OF this, of "fr\<lparr>locals := (locals fr)(n \<mapsto> x)\<rparr>"] Some
    show ?thesis by (auto simp: exec_line_def)
  qed
qed

lemma exec_loads_present:
  "\<forall>n\<in>set ns. ctx n \<noteq> None \<Longrightarrow>
   exec_block H ctx (map (Simple \<circ> LoadVar) ns @ ss) fr =
     exec_block H ctx ss (fr\<lparr>locals := fold (\<lambda>n l. l(n \<mapsto> the (ctx n))) ns (locals fr)\<rparr>)"
  by (induction ns arbitrary: fr) (auto simp: exec_line_def)

lemma render_missing:
  assumes T: "Template text contexts heap = Inr (t, heap')"
    and n: "n \<in> set (all_vars t)" "n \<notin> set (loop_vars t)"
    and m: "(render_context t ctx h ! length h) n = None"
  shows "\<exists>m. m \<in> set (all_vars t) \<and> m \<notin> set (loop_vars t) \<and>
             (render_context t ctx h ! length h) m = None \<and>
             fst (render H t ctx h) = Inl (KeyError m)"
proof -
  from Template_loads[OF T] obtain ss where
    rf: "render_function t = map (Simple \<circ> LoadVar) (context_names t) @ ss" by blast
  from n m have "\<exists>n\<in>set (context_names t). (render_context t ctx h ! length h) n = None"
    by (auto simp: context_names_def)
  from exec_loads_missing[OF this, of H ss "\<lparr>locals = Map.empty, result = []\<rparr>"]
  obtain k where k: "k \<in> set (context_names t)" "(render_context t ctx h ! length h) k = None"
    "exec_block H (render_context t ctx h ! length h) (map (Simple \<circ> LoadVar) (context_names t) @ ss)
       \<lparr>locals = Map.empty, result = []\<rparr> = Inl (KeyError k)"
    by blast
  then have "fst (render H t ctx h) = Inl (KeyError k)"
    by (simp add: render_def call_function_def rf Let_def)
  with k show ?thesis by (auto simp: context_names_def)
qed

lemma pipe_loop_names:
  "pipe_loop funcs e av = Inr (e', av') \<Longrightarrow>
   set av' = set av \<union> set funcs \<and> set (expr_names e') = set (expr_names e) \<union> set funcs"
  by (induction funcs arbitrary: e av) (auto simp: variable_ok)

lemma expr_code_names:
  "expr_code expr av = Inr (e, av') \<Longrightarrow> set av' = set av \<union> set (expr_names e)"
proof (induction expr av arbitrary: e av' rule: expr_code.induct)
  case (1 expr av)
  show ?case
  proof (cases "CHR ''|'' \<in> set expr")
    case True
    from "1.prems" True obtain b av1 where
      b: "expr_code (hd (split_on CHR ''|'' expr)) av = Inr (b, av1)"
      and p: "pipe_loop (tl (split_on CHR ''|'' expr)) b av1 = Inr (e, av')"
      by (subst (asm) expr_code.simps) (auto split: sum.splits)
    from "1.IH"(1)[OF True b] pipe_loop_names[OF p] show ?thesis by auto
  next
    case False
    show ?thesis
    proof (cases "CHR ''.'' \<in> set expr")
      case True
      from "1.prems" False True obtain b where
        b: "expr_code (hd (split_on CHR ''.'' expr)) av = Inr (b, av')"
        and e: "e = CDoDots b (tl (split_on CHR ''.'' expr))"
        by (subst (asm) expr_code.simps) (auto split: sum.splits)
      from "1.IH"(2)[OF False True b] e show ?thesis by simp
    next
      case nodot: False
      from "1.prems" False nodot show ?thesis
        by (subst (asm) expr_code.simps) (auto simp: variable_ok)
    qed
  qed
qed

section \<open>Failures at render time\<close>

text \<open>
  Claim C2, as amended. For every render call: when a step of a dotted-access chain
  raises an exception that derives from \<^verbatim>\<open>Exception\<close> and the line of the handler that
  formats the base value for the diagnostic succeeds, the whole dotted access is the
  empty string; an exception that derives from \<^verbatim>\<open>BaseException\<close> only leaves
  \<^verbatim>\<open>_do_dots\<close> as it is. Every bare variable and every filter name of an expression is
  recorded in \<^verbatim>\<open>all_vars\<close>; and when a name of \<^verbatim>\<open>all_vars\<close> that is not in \<^verbatim>\<open>loop_vars\<close>
  is absent from the context of the call, \<^verbatim>\<open>render\<close> raises \<^verbatim>\<open>KeyError\<close> for such a
  name.
\<close>

theorem dotted_failures_and_missing_names:
  "(dots_loop H v path = Inl e \<and> is_Exception e \<and> percent_s H v = Inr printed \<longrightarrow>
      do_dots H v path = Inr (str_value H ''''))
   \<and> (dots_loop H v path = Inl e \<and> \<not> is_Exception e \<longrightarrow> do_dots H v path = Inl e)
   \<and> (expr_code expr av = Inr (code', av') \<longrightarrow> set av' = set av \<union> set (expr_names code'))
   \<and> (Template text contexts heap = Inr (t, heap') \<and> n \<in> set (all_vars t) \<and> n \<notin> set (loop_vars t)
        \<and> (render_context t ctx h ! length h) n = None \<longrightarrow>
       (\<exists>m. m \<in> set (all_vars t) \<and> m \<notin> set (loop_vars t) \<and>
            (render_context t ctx h ! length h) m = None \<and>
            fst (render H t ctx h) = Inl (KeyError m)))"
proof (intro conjI impI)
  assume "dots_loop H v path = Inl e \<and> is_Exception e \<and> percent_s H v = Inr printed"
  then show "do_dots H v path = Inr (str_value H '''')" by (simp add: do_dots_def)
next
  assume "dots_loop H v path = Inl e \<and> \<not> is_Exception e"
  then show "do_dots H v path = Inl e" by (simp add: do_dots_def)
next
  assume "expr_code expr av = Inr (code', av')"
  then show "set av' = set av \<union> set (expr_names code')" by (rule expr_code_names)
next
  assume a: "Template text contexts heap = Inr (t, heap') \<and> n \<in> set (all_vars t) \<and> n \<notin> set (loop_vars t)
        \<and> (render_context t ctx h ! length h) n = None"
  show "\<exists>m. m \<in> set (all_vars t) \<and> m \<notin> set (loop_vars t) \<and>
            (render_context t ctx h ! length h) m = None \<and>
            fst (render H t ctx h) = Inl (KeyError m)"
    using a by (intro render_missing[of "text" "contexts" heap t heap' n ctx h H]) simp_all
qed

text \<open>Running a concrete template: unfolding rules.\<close>

lemmas render_eval = try_render_def build_eval run_eval expr_code.simps py_eval do_dots_def
  lookup_failure_def is_Exception_def

lemma tok_hi_name: "tokenize ''Hi {{ name }}'' = [''Hi '', ''{{ name }}'', '''']"
  by (simp add: tokenize_eval)

lemma tok_t_x: "tokenize ''{{ t.x }}'' = ['''', ''{{ t.x }}'', '''']"
  by (simp add: tokenize_eval)

lemma tok_sys_exit: "tokenize ''{{ sys.exit }}'' = ['''', ''{{ sys.exit }}'', '''']"
  by (simp add: tokenize_eval)

lemma Template_hi_name:
  "Template ''Hi {{ name }}'' [] ([] :: pyval dict list) =
     Inr (\<lparr>self_context = 0, all_vars = [''name''], loop_vars = [],
           render_function =
             [Simple (LoadVar ''name''), Simple InitResult, Simple InitAppend, Simple InitExtend,
              Simple InitToStr,
              Simple (ExtendResult [StrLit ''Hi '', ToStr (CVar ''name'')]),
              Simple ReturnJoin]\<rparr>, [Map.empty])"
  by (simp add: build_eval tok_hi_name expr_code.simps del: tokenize.simps)

text \<open>The theorem at a missing attribute, at a function that raises \<^verbatim>\<open>SystemExit\<close>,
  and at \<^verbatim>\<open>Hi {{ name }}\<close> rendered without a context, as in the test
  \<^verbatim>\<open>test_undefined_varaibles\<close>.\<close>

theorem dotted_failures_and_missing_names_witness:
  "do_dots py (PObj []) [''missing''] = Inr (PStr '''')
   \<and> do_dots py (PObj [(''exit'', PFun ''exit'')]) [''exit''] = Inl (NonException ''SystemExit'')
   \<and> (\<exists>t heap'. Template ''Hi {{ name }}'' [] ([] :: pyval dict list) = Inr (t, heap') \<and>
          fst (render py t None heap') = Inl (KeyError ''name''))"
proof -
  let ?t = "\<lparr>self_context = 0, all_vars = [''name''], loop_vars = [],
           render_function =
             [Simple (LoadVar ''name''), Simple InitResult, Simple InitAppend, Simple InitExtend,
              Simple InitToStr,
              Simple (ExtendResult [StrLit ''Hi '', ToStr (CVar ''name'')]),
              Simple ReturnJoin]\<rparr>"
  let ?h = "[Map.empty] :: pyval dict list"
  have l1: "dots_loop py (PObj []) [''missing''] = Inl AttributeError"
    by (simp add: py_eval lookup_failure_def)
  have e1: "is_Exception AttributeError" by (simp add: is_Exception_def)
  have p1: "percent_s py (PObj []) = Inr ''<object>''" by (simp add: py_eval)
  note T1 = dotted_failures_and_missing_names[of py "PObj []" "[''missing'']" AttributeError
      "''<object>''" "''x''" "[]" "CVar ''x''" "[''x'']" "''Hi {{ name }}''" "[]" "[]" ?t ?h
      "''name''" None ?h]
  have a: "do_dots py (PObj []) [''missing''] = Inr (PStr '''')"
    using T1[THEN conjunct1] l1 e1 p1 by (simp add: py_def)
  have l2: "dots_loop py (PObj [(''exit'', PFun ''exit'')]) [''exit''] = Inl (NonException ''SystemExit'')"
    by (simp add: py_eval lookup_failure_def)
  have e2: "\<not> is_Exception (NonException ''SystemExit'')" by (simp add: is_Exception_def)
  note T2 = dotted_failures_and_missing_names[of py "PObj [(''exit'', PFun ''exit'')]" "[''exit'']"
      "NonException ''SystemExit''" "''''" "''x''" "[]" "CVar ''x''" "[''x'']" "''Hi {{ name }}''"
      "[]" "[]" ?t ?h "''name''" None ?h]
  have b: "do_dots py (PObj [(''exit'', PFun ''exit'')]) [''exit''] = Inl (NonException ''SystemExit'')"
    using T2[THEN conjunct2, THEN conjunct1] l2 e2 by simp
  have m: "(render_context ?t None ?h ! length ?h) ''name'' = None"
    by (simp add: render_context_def)
  from T1[THEN conjunct2, THEN conjunct2, THEN conjunct2] Template_hi_name m
  have "\<exists>m. m \<in> set (all_vars ?t) \<and> m \<notin> set (loop_vars ?t) \<and>
            (render_context ?t None ?h ! length ?h) m = None \<and>
            fst (render py ?t None ?h) = Inl (KeyError m)"
    by simp
  then have c: "fst (render py ?t None ?h) = Inl (KeyError ''name'')" by auto
  from a b c Template_hi_name show ?thesis by blast
qed

text \<open>
  Claim C2 as stated fails at two inputs. \<^verbatim>\<open>{{ sys.exit }}\<close>: the call of the attribute
  raises \<^verbatim>\<open>SystemExit\<close>, which \<^verbatim>\<open>except Exception\<close> does not catch, and \<^verbatim>\<open>render\<close>
  raises it. \<^verbatim>\<open>{{ t.x }}\<close> with a tuple of two strings under \<^verbatim>\<open>t\<close>: the lookup fails,
  the handler formats its diagnostic with \<^verbatim>\<open>"...%s" % var\<close>, which raises \<^verbatim>\<open>TypeError\<close>
  for a tuple of two, and \<^verbatim>\<open>render\<close> raises that.
\<close>

theorem dotted_failure_propagates_counterexample:
  "try_render py ''{{ sys.exit }}'' ex_exit_ctx = Inr (Inl (NonException ''SystemExit''))
   \<and> try_render py ''{{ t.x }}'' ex_tuple_ctx = Inr (Inl TypeError)"
proof
  show "try_render py ''{{ sys.exit }}'' ex_exit_ctx = Inr (Inl (NonException ''SystemExit''))"
    by (simp add: render_eval tok_sys_exit ex_exit_ctx_def del: tokenize.simps)
  show "try_render py ''{{ t.x }}'' ex_tuple_ctx = Inr (Inl TypeError)"
    by (simp add: render_eval tok_t_x ex_tuple_ctx_def del: tokenize.simps)
qed

section \<open>Filters\<close>








section \<open>Names that are not identifiers\<close>

lemma tok_one: "tokenize ''{{ 1 }}'' = ['''', ''{{ 1 }}'', '''']"
  by (simp add: tokenize_eval)

text \<open>
  Claim C5 does not hold of the code. The test of \<^verbatim>\<open>_variable\<close> never fails, whatever
  the name; the name \<^verbatim>\<open>1\<close> is not a valid identifier, yet the template \<^verbatim>\<open>{{ 1 }}\<close>
  compiles, the generated name \<^verbatim>\<open>c_1\<close> being one, and renders the value that the
  context holds under the key \<^verbatim>\<open>1\<close>.
\<close>

theorem invalid_identifier_accepted:
  "variable name vars_set = Inr (List.insert name vars_set)
   \<and> \<not> valid_identifier ''1''
   \<and> try_render py ''{{ 1 }}'' [''1'' \<mapsto> PStr ''x''] = Inr (Inr (RStr ''x''))"
proof (intro conjI)
  show "variable name vars_set = Inr (List.insert name vars_set)" by (rule variable_ok)
  show "\<not> valid_identifier ''1''" by (simp add: valid_identifier_def)
  show "try_render py ''{{ 1 }}'' [''1'' \<mapsto> PStr ''x''] = Inr (Inr (RStr ''x''))"
    by (simp add: render_eval tok_one del: tokenize.simps)
qed

section \<open>Loop variables\<close>

lemma exec_line_frame:
  "exec_line H ctx l fr = Inr (Next fr') \<Longrightarrow> n \<notin> set (binds (Simple l)) \<Longrightarrow>
   locals fr' n = locals fr n"
  by (cases l) (auto simp: exec_line_def split: option.splits sum.splits)

lemma exec_frame:
  "(exec_stmt H ctx s fr = Inr (Next fr') \<longrightarrow> n \<notin> set (binds s) \<longrightarrow>
      locals fr' n = locals fr n)"
  "(exec_block H ctx ss fr = Inr (Next fr') \<longrightarrow> n \<notin> set (binds_block ss) \<longrightarrow>
      locals fr' n = locals fr n)"
  "(exec_for H ctx var body vals fr = Inr (Next fr') \<longrightarrow> n \<notin> set (binds_block body) \<longrightarrow>
      n \<noteq> var \<longrightarrow> locals fr' n = locals fr n)"
proof (induction H ctx s fr and H ctx ss fr and H ctx var body vals fr
    arbitrary: fr' and fr' and fr'
    rule: exec_stmt_exec_block_exec_for.induct)
  case (1 H ctx l fr)
  then show ?case using exec_line_frame by fastforce
next
  case (2 H ctx e body fr)
  then show ?case by (auto split: sum.splits if_splits)
next
  case (3 H ctx var e body fr)
  then show ?case by (auto split: sum.splits)
next
  case (4 H ctx body fr)
  then show ?case by simp
next
  case (5 H ctx fr)
  then show ?case by simp
next
  case (6 H ctx s ss fr)
  show ?case
  proof (intro impI)
    assume r: "exec_block H ctx (s # ss) fr = Inr (Next fr')"
      and nb: "n \<notin> set (binds_block (s # ss))"
    from r obtain fr1 where s1: "exec_stmt H ctx s fr = Inr (Next fr1)"
      and s2: "exec_block H ctx ss fr1 = Inr (Next fr')"
      by (auto split: sum.splits flow.splits)
    from "6.IH"(1) s1 nb have "locals fr1 n = locals fr n" by simp
    moreover from "6.IH"(2)[OF s1] s2 nb have "locals fr' n = locals fr1 n" by simp
    ultimately show "locals fr' n = locals fr n" by simp
  qed
next
  case (7 H ctx var body fr)
  then show ?case by simp
next
  case (8 H ctx var body x xs fr)
  show ?case
  proof (intro impI)
    assume r: "exec_for H ctx var body (x # xs) fr = Inr (Next fr')"
      and nb: "n \<notin> set (binds_block body)" and nv: "n \<noteq> var"
    let ?fr0 = "fr\<lparr>locals := (locals fr)(var \<mapsto> x)\<rparr>"
    from r obtain fr1 where s1: "exec_block H ctx body ?fr0 = Inr (Next fr1)"
      and s2: "exec_for H ctx var body xs fr1 = Inr (Next fr')"
      by (auto split: sum.splits flow.splits)
    from "8.IH"(1) s1 nb have "locals fr1 n = locals ?fr0 n" by simp
    moreover from "8.IH"(2)[OF s1] s2 nb nv have "locals fr' n = locals fr1 n" by simp
    ultimately show "locals fr' n = locals fr n" using nv by simp
  qed
qed

lemma exec_for_snoc:
  "exec_for H ctx var body (vals @ [x]) fr =
     (case exec_for H ctx var body vals fr of
        Inl e \<Rightarrow> Inl e
      | Inr (Return r) \<Rightarrow> Inr (Return r)
      | Inr (Next fr1) \<Rightarrow> exec_block H ctx body (fr1\<lparr>locals := (locals fr1)(var \<mapsto> x)\<rparr>))"
  by (induction vals arbitrary: fr) (auto split: sum.splits flow.splits)

lemma loop_var_persists:
  assumes "exec_for H ctx var body (vals @ [x]) fr = Inr (Next fr')"
    and "var \<notin> set (binds_block body)"
  shows "locals fr' var = Some x"
proof -
  from assms(1) obtain fr1 where
    "exec_block H ctx body (fr1\<lparr>locals := (locals fr1)(var \<mapsto> x)\<rparr>) = Inr (Next fr')"
    unfolding exec_for_snoc by (auto split: sum.splits flow.splits)
  with exec_frame(2)[of H ctx body _ fr' var] assms(2) show ?thesis by simp
qed

lemma do_for_registers:
  assumes "do_for st token [''for'', var, ''in'', expr] = Inr st'"
  shows "var \<in> set (loop_vars st') \<and> var \<notin> set (context_names st') \<and>
         (\<exists>e. code (builder st') = code (builder st) @ [Ln (indent_level (builder st)) (ForHead var e)])"
  using assms expr_code_ok[of expr "all_vars st"]
  by (auto simp: do_for_def variable_ok context_names_def add_line_def indent_def
      split: if_splits)

lemma exec_line_ctx:
  "\<not> is_load l \<Longrightarrow> exec_line H c1 l fr = exec_line H c2 l fr"
  by (cases l) (simp_all add: exec_line_def is_load_def)

lemma exec_ctx:
  "list_all (\<lambda>l. \<not> is_load l) (stmt_lines s) \<longrightarrow>
     exec_stmt H c1 s fr = exec_stmt H c2 s fr"
  "list_all (\<lambda>l. \<not> is_load l) (block_lines ss) \<longrightarrow>
     exec_block H c1 ss fr = exec_block H c2 ss fr"
  "list_all (\<lambda>l. \<not> is_load l) (block_lines body) \<longrightarrow>
     exec_for H c1 var body vals fr = exec_for H c2 var body vals fr"
proof (induction H c1 s fr and H c1 ss fr and H c1 var body vals fr
    rule: exec_stmt_exec_block_exec_for.induct)
  case (1 H ctx l fr)
  then show ?case by (simp add: exec_line_ctx)
next
  case (2 H ctx e body fr)
  then show ?case by (auto split: sum.splits)
next
  case (3 H ctx var e body fr)
  then show ?case by (auto split: sum.splits)
next
  case (4 H ctx body fr)
  then show ?case by simp
next
  case (5 H ctx fr)
  then show ?case by simp
next
  case (6 H ctx s ss fr)
  show ?case
  proof
    assume a: "list_all (\<lambda>l. \<not> is_load l) (block_lines (s # ss))"
    then have s: "exec_stmt H c2 s fr = exec_stmt H ctx s fr" using "6.IH"(1) by simp
    show "exec_block H ctx (s # ss) fr = exec_block H c2 (s # ss) fr"
    proof (cases "exec_stmt H ctx s fr")
      case (Inl e)
      then show ?thesis by (simp add: s)
    next
      case (Inr fl)
      show ?thesis
      proof (cases fl)
        case (Next fr1)
        with Inr "6.IH"(2)[of fl fr1] a show ?thesis by (simp add: s)
      next
        case (Return r)
        with Inr show ?thesis by (simp add: s)
      qed
    qed
  qed
next
  case (7 H ctx var body fr)
  then show ?case by simp
next
  case (8 H ctx var body x xs fr)
  show ?case
  proof
    assume a: "list_all (\<lambda>l. \<not> is_load l) (block_lines body)"
    let ?fr0 = "fr\<lparr>locals := (locals fr)(var \<mapsto> x)\<rparr>"
    from a "8.IH"(1) have s: "exec_block H c2 body ?fr0 = exec_block H ctx body ?fr0" by simp
    show "exec_for H ctx var body (x # xs) fr = exec_for H c2 var body (x # xs) fr"
    proof (cases "exec_block H ctx body ?fr0")
      case (Inl e)
      then show ?thesis by (simp add: s)
    next
      case (Inr fl)
      show ?thesis
      proof (cases fl)
        case (Next fr1)
        with Inr "8.IH"(2)[of fl fr1] a show ?thesis by (simp add: s)
      next
        case (Return r)
        with Inr show ?thesis by (simp add: s)
      qed
    qed
  qed
qed

lemma exec_loads_agree:
  "\<forall>n\<in>set ns. c1 n = c2 n \<Longrightarrow> list_all (\<lambda>l. \<not> is_load l) (block_lines ss) \<Longrightarrow>
   exec_block H c1 (map (Simple \<circ> LoadVar) ns @ ss) fr =
   exec_block H c2 (map (Simple \<circ> LoadVar) ns @ ss) fr"
proof (induction ns arbitrary: fr)
  case Nil
  then show ?case using exec_ctx(2)[of ss H c1 fr c2] by simp
next
  case (Cons n ns)
  from Cons.prems have n: "c1 n = c2 n" and r: "\<forall>n\<in>set ns. c1 n = c2 n" by simp_all
  show ?case
  proof (cases "c2 n")
    case None
    with n show ?thesis by (simp add: exec_line_def)
  next
    case (Some x)
    with n Cons.IH[OF r Cons.prems(2), of "fr\<lparr>locals := (locals fr)(n \<mapsto> x)\<rparr>"]
    show ?thesis by (simp add: exec_line_def)
  qed
qed

lemma render_agree:
  assumes T: "Template text contexts heap = Inr (t, heap')"
    and a: "\<forall>n\<in>set (context_names t). c1 n = c2 n"
  shows "call_function H (render_function t) c1 = call_function H (render_function t) c2"
proof -
  from Template_body[OF T] obtain ss where
    rf: "render_function t = map (Simple \<circ> LoadVar) (context_names t) @ ss"
    and nl: "list_all (\<lambda>l. \<not> is_load l) (block_lines ss)" by blast
  from exec_loads_agree[OF a nl] show ?thesis
    by (simp add: call_function_def rf)
qed

lemma for_targets:
  assumes T: "Template text contexts heap = Inr (t, heap')"
    and f: "ForHead v e \<in> set (block_lines (render_function t))"
  shows "v \<in> set (loop_vars t) \<and> v \<notin> set (context_names t)"
proof -
  from Template_body[OF T] obtain ss where
    rf: "render_function t = map (Simple \<circ> LoadVar) (context_names t) @ ss"
    and ft: "\<forall>v e. ForHead v e \<in> set (block_lines ss) \<longrightarrow> v \<in> set (loop_vars t)" by blast
  have "block_lines (map (Simple \<circ> LoadVar) ns) = map LoadVar ns" for ns
    by (induction ns) simp_all
  with f rf have "ForHead v e \<in> set (block_lines ss)"
    by (auto simp: block_lines_append)
  with ft have "v \<in> set (loop_vars t)" by blast
  then show ?thesis by (simp add: context_names_def)
qed

lemma tok_loop:
  "tokenize ''{% for x in xs %}a{% endfor %}{{ x }}'' =
     ['''', ''{% for x in xs %}'', ''a'', ''{% endfor %}'', '''', ''{{ x }}'', '''']"
  by (simp add: tokenize_eval)

lemma Template_loop:
  "Template ''{% for x in xs %}a{% endfor %}{{ x }}'' [] ([] :: pyval dict list) =
     Inr (\<lparr>self_context = 0, all_vars = [''x'', ''xs''], loop_vars = [''x''],
           render_function =
             [Simple (LoadVar ''xs''), Simple InitResult, Simple InitAppend, Simple InitExtend,
              Simple InitToStr,
              SFor ''x'' (CVar ''xs'') [Simple (AppendResult (StrLit ''a''))],
              Simple (AppendResult (ToStr (CVar ''x''))),
              Simple ReturnJoin]\<rparr>, [Map.empty])"
  by (simp add: build_eval tok_loop expr_code.simps del: tokenize.simps)

text \<open>
  Claim C6, as amended. For every \<^verbatim>\<open>for\<close> tag the loop variable is registered in
  \<^verbatim>\<open>loop_vars\<close>, so it is not among the names read from the context, and becomes the
  target of a \<^verbatim>\<open>for\<close> line of the generated function. That function has one local
  scope: each iteration assigns the current item to the loop variable and then runs
  the body; a loop over no items leaves the frame as it is; and after a loop that ran
  to its end over at least one item, with a body that does not assign the name again,
  the frame still holds the last item under the loop variable: the binding is visible
  to the instructions after the loop. The generated function begins with one load from
  the context for every name in \<^verbatim>\<open>all_vars\<close> minus \<^verbatim>\<open>loop_vars\<close>, and when such a name
  is absent from the context of the call, \<^verbatim>\<open>render\<close> raises \<^verbatim>\<open>KeyError\<close> for such a
  name. In the function of a compiled template the target of every \<^verbatim>\<open>for\<close> line is in
  \<^verbatim>\<open>loop_vars\<close>, hence not among the names read from the context, and the function
  reads the context at those names only: on two contexts that agree on the names of
  \<^verbatim>\<open>all_vars\<close> minus \<^verbatim>\<open>loop_vars\<close> it gives the same result.
\<close>

theorem loop_variable_scope:
  "(do_for st token [''for'', var, ''in'', expr] = Inr st' \<longrightarrow>
      var \<in> set (loop_vars st') \<and> var \<notin> set (context_names st') \<and>
      (\<exists>e. code (builder st') =
             code (builder st) @ [Ln (indent_level (builder st)) (ForHead var e)]))
   \<and> exec_for H ctx var body (x # vals) fr =
       (case exec_block H ctx body (fr\<lparr>locals := (locals fr)(var \<mapsto> x)\<rparr>) of
          Inl e \<Rightarrow> Inl e
        | Inr (Return r) \<Rightarrow> Inr (Return r)
        | Inr (Next fr1) \<Rightarrow> exec_for H ctx var body vals fr1)
   \<and> exec_for H ctx var body [] fr = Inr (Next fr)
   \<and> (exec_for H ctx var body (vals @ [x]) fr = Inr (Next fr') \<and> var \<notin> set (binds_block body) \<longrightarrow>
        locals fr' var = Some x)
   \<and> (Template text contexts heap = Inr (t, heap') \<longrightarrow>
        (\<exists>ss. render_function t = map (Simple \<circ> LoadVar) (context_names t) @ ss))
   \<and> (Template text contexts heap = Inr (t, heap') \<and> n \<in> set (context_names t)
        \<and> (render_context t c h ! length h) n = None \<longrightarrow>
       (\<exists>m. m \<in> set (context_names t) \<and> (render_context t c h ! length h) m = None \<and>
            fst (render H t c h) = Inl (KeyError m)))
   \<and> (Template text contexts heap = Inr (t, heap') \<and>
        ForHead v e' \<in> set (block_lines (render_function t)) \<longrightarrow>
        v \<in> set (loop_vars t) \<and> v \<notin> set (context_names t))
   \<and> (Template text contexts heap = Inr (t, heap') \<and>
        (\<forall>n\<in>set (context_names t). c1 n = c2 n) \<longrightarrow>
        call_function H (render_function t) c1 = call_function H (render_function t) c2)"
proof (intro conjI impI)
  assume "do_for st token [''for'', var, ''in'', expr] = Inr st'"
  from do_for_registers[OF this]
  show "var \<in> set (loop_vars st')" "var \<notin> set (context_names st')"
    "\<exists>e. code (builder st') = code (builder st) @ [Ln (indent_level (builder st)) (ForHead var e)]"
    by simp_all
next
  show "exec_for H ctx var body (x # vals) fr =
       (case exec_block H ctx body (fr\<lparr>locals := (locals fr)(var \<mapsto> x)\<rparr>) of
          Inl e \<Rightarrow> Inl e
        | Inr (Return r) \<Rightarrow> Inr (Return r)
        | Inr (Next fr1) \<Rightarrow> exec_for H ctx var body vals fr1)"
    by (simp split: sum.splits flow.splits)
next
  show "exec_for H ctx var body [] fr = Inr (Next fr)" by simp
next
  assume a: "exec_for H ctx var body (vals @ [x]) fr = Inr (Next fr') \<and> var \<notin> set (binds_block body)"
  show "locals fr' var = Some x"
    by (rule loop_var_persists[OF a[THEN conjunct1] a[THEN conjunct2]])
next
  assume "Template text contexts heap = Inr (t, heap')"
  then show "\<exists>ss. render_function t = map (Simple \<circ> LoadVar) (context_names t) @ ss"
    by (rule Template_loads)
next
  assume a: "Template text contexts heap = Inr (t, heap') \<and> n \<in> set (context_names t)
        \<and> (render_context t c h ! length h) n = None"
  then have "\<exists>m. m \<in> set (all_vars t) \<and> m \<notin> set (loop_vars t) \<and>
             (render_context t c h ! length h) m = None \<and>
             fst (render H t c h) = Inl (KeyError m)"
    by (intro render_missing[of "text" "contexts" heap t heap' n c h H])
       (simp_all add: context_names_def)
  then show "\<exists>m. m \<in> set (context_names t) \<and> (render_context t c h ! length h) m = None \<and>
            fst (render H t c h) = Inl (KeyError m)"
    by (auto simp: context_names_def)
next
  assume a: "Template text contexts heap = Inr (t, heap') \<and>
        ForHead v e' \<in> set (block_lines (render_function t))"
  from for_targets[OF a[THEN conjunct1] a[THEN conjunct2]]
  show "v \<in> set (loop_vars t)" "v \<notin> set (context_names t)" by simp_all
next
  assume a: "Template text contexts heap = Inr (t, heap') \<and>
        (\<forall>n\<in>set (context_names t). c1 n = c2 n)"
  show "call_function H (render_function t) c1 = call_function H (render_function t) c2"
    by (rule render_agree[OF a[THEN conjunct1] a[THEN conjunct2]])
qed

text \<open>The theorem at the tag \<^verbatim>\<open>{% for x in xs %}\<close>, at a loop over two items, at
  \<^verbatim>\<open>Hi {{ name }}\<close> rendered without a context, and at
  \<^verbatim>\<open>{% for x in xs %}a{% endfor %}{{ x }}\<close> rendered with and without an \<^verbatim>\<open>x\<close> in the
  context.\<close>

theorem loop_variable_scope_witness:
  "(\<exists>st'. do_for (initial_state 0) ''{% for x in xs %}'' [''for'', ''x'', ''in'', ''xs''] = Inr st'
          \<and> ''x'' \<in> set (loop_vars st') \<and> ''x'' \<notin> set (context_names st'))
   \<and> (\<exists>fr'. exec_for py Map.empty ''x'' [Simple (AppendResult (StrLit ''a''))]
               ([PStr ''p''] @ [PStr ''q'']) \<lparr>locals = Map.empty, result = []\<rparr> = Inr (Next fr')
          \<and> ''x'' \<notin> set (binds_block [Simple (AppendResult (StrLit ''a''))])
          \<and> locals fr' ''x'' = Some (PStr ''q''))
   \<and> (\<exists>t heap'. Template ''Hi {{ name }}'' [] ([] :: pyval dict list) = Inr (t, heap')
          \<and> ''name'' \<in> set (context_names t)
          \<and> fst (render py t None heap') = Inl (KeyError ''name''))
   \<and> (\<exists>t heap'. Template ''{% for x in xs %}a{% endfor %}{{ x }}'' [] ([] :: pyval dict list) =
                   Inr (t, heap')
          \<and> ForHead ''x'' (CVar ''xs'') \<in> set (block_lines (render_function t))
          \<and> ''x'' \<in> set (loop_vars t) \<and> ''x'' \<notin> set (context_names t))
   \<and> (\<exists>t heap'. Template ''{% for x in xs %}a{% endfor %}{{ x }}'' [] ([] :: pyval dict list) =
                   Inr (t, heap')
          \<and> (\<forall>n\<in>set (context_names t). ex_loop_ctx n = (ex_loop_ctx(''x'' \<mapsto> PStr ''z'')) n)
          \<and> call_function py (render_function t) (ex_loop_ctx(''x'' \<mapsto> PStr ''z'')) =
              call_function py (render_function t) ex_loop_ctx
          \<and> call_function py (render_function t) ex_loop_ctx = Inr (RStr ''aaq''))"
proof (intro conjI)
  obtain st' where d: "do_for (initial_state 0) ''{% for x in xs %}'' [''for'', ''x'', ''in'', ''xs''] = Inr st'"
    by (simp add: do_for_def variable_ok expr_code.simps)
  note T = loop_variable_scope[of "initial_state 0" "''{% for x in xs %}''" "''x''" "''xs''" st']
  from T[THEN conjunct1] d
  show "\<exists>st'. do_for (initial_state 0) ''{% for x in xs %}'' [''for'', ''x'', ''in'', ''xs''] = Inr st'
          \<and> ''x'' \<in> set (loop_vars st') \<and> ''x'' \<notin> set (context_names st')"
    by blast
next
  let ?body = "[Simple (AppendResult (StrLit ''a''))]"
  let ?fr = "\<lparr>locals = Map.empty, result = []\<rparr> :: pyval frame"
  obtain fr' where r: "exec_for py Map.empty ''x'' ?body ([PStr ''p''] @ [PStr ''q'']) ?fr = Inr (Next fr')"
    by (simp add: exec_line_def)
  have nb: "''x'' \<notin> set (binds_block ?body)" by simp
  note T = loop_variable_scope[where H = py and ctx = Map.empty and var = "''x''" and body = ?body
      and vals = "[PStr ''p'']" and x = "PStr ''q''" and fr = ?fr and fr' = fr']
  from T[THEN conjunct2, THEN conjunct2, THEN conjunct2, THEN conjunct1] r nb
  have "locals fr' ''x'' = Some (PStr ''q'')" by blast
  with r nb show "\<exists>fr'. exec_for py Map.empty ''x'' ?body ([PStr ''p''] @ [PStr ''q'']) ?fr = Inr (Next fr')
          \<and> ''x'' \<notin> set (binds_block ?body) \<and> locals fr' ''x'' = Some (PStr ''q'')"
    by blast
next
  let ?t = "\<lparr>self_context = 0, all_vars = [''name''], loop_vars = [],
           render_function =
             [Simple (LoadVar ''name''), Simple InitResult, Simple InitAppend, Simple InitExtend,
              Simple InitToStr,
              Simple (ExtendResult [StrLit ''Hi '', ToStr (CVar ''name'')]),
              Simple ReturnJoin]\<rparr>"
  let ?h = "[Map.empty] :: pyval dict list"
  have n: "''name'' \<in> set (context_names ?t)" by (simp add: context_names_def)
  have m: "(render_context ?t None ?h ! length ?h) ''name'' = None"
    by (simp add: render_context_def)
  note T = loop_variable_scope[of _ _ _ _ _ py _ _ _ _ _ _ "''Hi {{ name }}''" "[]"
      "[] :: pyval dict list" ?t ?h "''name''" None ?h]
  from T[THEN conjunct2, THEN conjunct2, THEN conjunct2, THEN conjunct2, THEN conjunct2,
      THEN conjunct1]
    Template_hi_name n m
  have "\<exists>m. m \<in> set (context_names ?t) \<and> (render_context ?t None ?h ! length ?h) m = None \<and>
            fst (render py ?t None ?h) = Inl (KeyError m)"
    by blast
  then have "fst (render py ?t None ?h) = Inl (KeyError ''name'')"
    by (auto simp: context_names_def)
  with Template_hi_name n
  show "\<exists>t heap'. Template ''Hi {{ name }}'' [] ([] :: pyval dict list) = Inr (t, heap')
          \<and> ''name'' \<in> set (context_names t)
          \<and> fst (render py t None heap') = Inl (KeyError ''name'')"
    by blast
next
  let ?t = "\<lparr>self_context = 0, all_vars = [''x'', ''xs''], loop_vars = [''x''],
           render_function =
             [Simple (LoadVar ''xs''), Simple InitResult, Simple InitAppend, Simple InitExtend,
              Simple InitToStr,
              SFor ''x'' (CVar ''xs'') [Simple (AppendResult (StrLit ''a''))],
              Simple (AppendResult (ToStr (CVar ''x''))),
              Simple ReturnJoin]\<rparr>"
  let ?h = "[Map.empty] :: pyval dict list"
  have f: "ForHead ''x'' (CVar ''xs'') \<in> set (block_lines (render_function ?t))" by simp
  note T = loop_variable_scope[of _ _ _ _ _ py _ _ _ _ _ _
      "''{% for x in xs %}a{% endfor %}{{ x }}''" "[]" "[] :: pyval dict list" ?t ?h _ _ _
      "''x''" "CVar ''xs''"]
  from T[THEN conjunct2, THEN conjunct2, THEN conjunct2, THEN conjunct2, THEN conjunct2,
      THEN conjunct2, THEN conjunct1] Template_loop f
  have "''x'' \<in> set (loop_vars ?t) \<and> ''x'' \<notin> set (context_names ?t)" by blast
  with Template_loop f
  show "\<exists>t heap'. Template ''{% for x in xs %}a{% endfor %}{{ x }}'' [] ([] :: pyval dict list) =
                   Inr (t, heap')
          \<and> ForHead ''x'' (CVar ''xs'') \<in> set (block_lines (render_function t))
          \<and> ''x'' \<in> set (loop_vars t) \<and> ''x'' \<notin> set (context_names t)"
    by blast
next
  let ?t = "\<lparr>self_context = 0, all_vars = [''x'', ''xs''], loop_vars = [''x''],
           render_function =
             [Simple (LoadVar ''xs''), Simple InitResult, Simple InitAppend, Simple InitExtend,
              Simple InitToStr,
              SFor ''x'' (CVar ''xs'') [Simple (AppendResult (StrLit ''a''))],
              Simple (AppendResult (ToStr (CVar ''x''))),
              Simple ReturnJoin]\<rparr>"
  let ?h = "[Map.empty] :: pyval dict list"
  let ?c2 = "ex_loop_ctx(''x'' \<mapsto> PStr ''z'')"
  have a: "\<forall>n\<in>set (context_names ?t). ex_loop_ctx n = ?c2 n"
    by (simp add: context_names_def)
  have r: "call_function py (render_function ?t) ex_loop_ctx = Inr (RStr ''aaq'')"
    by (simp add: run_eval py_eval ex_loop_ctx_def)
  note T = loop_variable_scope[of _ _ _ _ _ py _ _ _ _ _ _
      "''{% for x in xs %}a{% endfor %}{{ x }}''" "[]" "[] :: pyval dict list" ?t ?h _ _ _
      _ _ ex_loop_ctx ?c2]
  from T[THEN conjunct2, THEN conjunct2, THEN conjunct2, THEN conjunct2, THEN conjunct2,
      THEN conjunct2, THEN conjunct2] Template_loop a
  have "call_function py (render_function ?t) ex_loop_ctx =
        call_function py (render_function ?t) ?c2" by blast
  with Template_loop a r
  show "\<exists>t heap'. Template ''{% for x in xs %}a{% endfor %}{{ x }}'' [] ([] :: pyval dict list) =
                   Inr (t, heap')
          \<and> (\<forall>n\<in>set (context_names t). ex_loop_ctx n = (ex_loop_ctx(''x'' \<mapsto> PStr ''z'')) n)
          \<and> call_function py (render_function t) (ex_loop_ctx(''x'' \<mapsto> PStr ''z'')) =
              call_function py (render_function t) ex_loop_ctx
          \<and> call_function py (render_function t) ex_loop_ctx = Inr (RStr ''aaq'')"
    by (intro exI[of _ ?t] exI[of _ ?h] conjI) simp_all
qed

text \<open>
  Claim C6 as stated fails at the template \<^verbatim>\<open>{% for x in xs %}a{% endfor %}{{ x }}\<close> with
  \<^verbatim>\<open>xs = ['p', 'q']\<close> and no \<^verbatim>\<open>x\<close> in the context: the reference to \<^verbatim>\<open>x\<close> after the
  loop is satisfied by the binding that the loop left, and \<^verbatim>\<open>render\<close> returns \<^verbatim>\<open>aaq\<close>.
\<close>

theorem loop_binding_visible_counterexample:
  "try_render py ''{% for x in xs %}a{% endfor %}{{ x }}'' ex_loop_ctx = Inr (Inr (RStr ''aaq''))
   \<and> ex_loop_ctx ''x'' = None"
proof
  show "try_render py ''{% for x in xs %}a{% endfor %}{{ x }}'' ex_loop_ctx = Inr (Inr (RStr ''aaq''))"
    by (simp add: render_eval tok_loop ex_loop_ctx_def del: tokenize.simps)
  show "ex_loop_ctx ''x'' = None" by (simp add: ex_loop_ctx_def)
qed

section \<open>The contexts of a render call\<close>













end
